theory Spec2Isabelle
  imports Complex_Main
begin

section \<open>Common Python-level notions\<close>

text \<open>
  Exceptions are values. The payload of an \<open>AssertionError\<close> is either absent
  (\<open>assert c\<close>), a message string (\<open>assert c, f"..."\<close>) or the tuple that
  \<open>compute_fbank_mucs\<close> attaches to its manifest-count assertion. \<open>LibraryError\<close>
  stands for whatever an external library (torch, torchaudio, lhotse, sentencepiece)
  raises from inside one of its calls.
\<close>

datatype assert_payload =
    NoPayload
  | Message string
  | ManifestCount nat nat "string list" "string list"

datatype error =
    AssertionError assert_payload
  | ValueError string
  | KeyError string
  | IndexError
  | TypeError
  | LibraryError string

text \<open>Decimal rendering of a Python \<open>int\<close> inside an f-string.\<close>

fun str_nat :: "nat \<Rightarrow> string" where
  "str_nat n =
     (if n < 10 then [''0123456789'' ! n]
      else str_nat (n div 10) @ [''0123456789'' ! (n mod 10)])"

definition str_int :: "int \<Rightarrow> string" where
  "str_int i = (if i < 0 then ''-'' @ str_nat (nat (- i)) else str_nat (nat i))"

section \<open>local/compute_fbank_mucs.py\<close>

subsection \<open>File system, effects, external capabilities\<close>

text \<open>
  The output directory is a map from path strings to nodes. \<open>Path.is_file\<close> holds
  of a path exactly when a regular file is there; the content of the file plays no role.
  The map holds the artifact files. The manifests are read through the manifest reader
  below, from files named \<open><prefix>_recordings_...\<close> and
  \<open><prefix>_supervisions_...\<close>, which the function never writes; the feature
  store is written by the feature computation under \<open><prefix>_feats_<partition>\<close>,
  which is never the path of an artifact (\<open>storage_path_not_artifact\<close> below),
  and shows in the trace.
\<close>

datatype 'c node = RegularFile 'c | Directory

type_synonym 'c filesystem = "string \<rightharpoonup> 'c node"

definition is_file :: "'c filesystem \<Rightarrow> string \<Rightarrow> bool" where
  "is_file fs p = (case fs p of Some (RegularFile _) \<Rightarrow> True | _ \<Rightarrow> False)"

text \<open>
  \<open>output_dir / cuts_filename\<close> on an already normalised \<open>Path\<close>; the
  file names built here never start with a slash.
\<close>

definition path_join :: "string \<Rightarrow> string \<Rightarrow> string" where
  "path_join d n =
     (if d = ''.'' then n else if d = ''/'' then ''/'' @ n else d @ ''/'' @ n)"

text \<open>
  Every call that leaves the function (logging and the libraries) is recorded, in
  program order, in a trace.
\<close>

datatype mucs_event =
    Log string
  | SpLoad string
  | ReadManifestsIfCached "string list" string string string
  | FromManifests
  | ComputeAndStoreFeatures string nat bool
  | TrimToSupervisions bool "real option" bool
  | ToFile string

record 'c state =
  files :: "'c filesystem"
  trace :: "mucs_event list"

definition emit :: "mucs_event \<Rightarrow> 'c state \<Rightarrow> 'c state" where
  "emit e st = st\<lparr>trace := trace st @ [e]\<rparr>"

text \<open>
  \<open>CutSet.to_file\<close> either writes the serialised descriptor, or raises, possibly
  leaving a partial file behind.
\<close>

datatype 'c write_result = Written 'c | WriteFailed error "'c option"

text \<open>
  The collaborators of the caching pipeline: \<open>os.cpu_count()\<close>, the tokenizer
  loader, lhotse's manifest reader, cut set constructor, feature computation, trimming
  and writer, and the executor yielded by \<open>icefall.utils.get_executor\<close>
  (\<open>None\<close> when the pool is local). A Python \<open>dict\<close> is an association list
  in insertion order.
\<close>

record ('m, 'cs, 'ex, 'c) mucs_env =
  cpu_count :: "nat option"
  sp_load :: "string \<Rightarrow> error option"
  read_manifests_if_cached ::
    "string list \<Rightarrow> string \<Rightarrow> string \<Rightarrow> string \<Rightarrow>
       error + (string \<times> (string \<times> 'm) list) list option"
  get_executor :: "'ex option"
  from_manifests :: "'m \<Rightarrow> 'm \<Rightarrow> error + 'cs"
  compute_and_store_features ::
    "'cs \<Rightarrow> nat \<Rightarrow> string \<Rightarrow> nat \<Rightarrow> 'ex option \<Rightarrow> error + 'cs"
  trim_to_supervisions :: "'cs \<Rightarrow> bool \<Rightarrow> real option \<Rightarrow> bool \<Rightarrow> error + 'cs"
  to_file :: "'cs \<Rightarrow> string \<Rightarrow> 'c write_result"

text \<open>The command line of the script, as left in the global \<open>args\<close>.\<close>

record mucs_args =
  bpe_model_arg :: "string option"
  dataset_arg :: "string option"
  manifestpath :: "string option"
  fbankpath :: "string option"

subsection \<open>The function\<close>

definition dataset_parts :: "string list" where
  "dataset_parts = [''train'', ''test'', ''dev'']"

definition prefix :: string where "prefix = ''mucs''"
definition suffix :: string where "suffix = ''jsonl.gz''"
definition num_mel_bins :: nat where "num_mel_bins = 80"

definition cuts_filename :: "string \<Rightarrow> string" where
  "cuts_filename partition' = prefix @ ''_cuts_'' @ partition' @ ''.'' @ suffix"

definition storage_path :: "string \<Rightarrow> string \<Rightarrow> string" where
  "storage_path output_dir partition' = output_dir @ ''/'' @ prefix @ ''_feats_'' @ partition'"

definition num_jobs_of :: "nat \<Rightarrow> nat" where
  "num_jobs_of cpus = min 48 cpus"

definition jobs_arg :: "nat \<Rightarrow> 'ex option \<Rightarrow> nat" where
  "jobs_arg num_jobs ex = (case ex of None \<Rightarrow> num_jobs | Some _ \<Rightarrow> 80)"

text \<open>The body of the \<open>for partition, m in manifests.items()\<close> loop, for one item.\<close>

definition process_partition ::
  "('m, 'cs, 'ex, 'c) mucs_env \<Rightarrow> string \<Rightarrow> nat \<Rightarrow> 'ex option \<Rightarrow>
     string \<Rightarrow> (string \<times> 'm) list \<Rightarrow> 'c state \<Rightarrow> error option \<times> 'c state" where
  "process_partition env output_dir num_jobs ex partition' m st =
     (if is_file (files st) (path_join output_dir (cuts_filename partition'))
      then (None, emit (Log (partition' @ '' already exists - skipping.'')) st)
      else
        let st1 = emit (Log (''Processing '' @ partition')) st in
        (case map_of m ''recordings'' of
          None \<Rightarrow> (Some (KeyError ''recordings''), st1)
        | Some recordings \<Rightarrow>
        (case map_of m ''supervisions'' of
          None \<Rightarrow> (Some (KeyError ''supervisions''), st1)
        | Some supervisions \<Rightarrow>
        let st2 = emit FromManifests st1 in
        (case from_manifests env recordings supervisions of
          Inl e \<Rightarrow> (Some e, st2)
        | Inr cut_set \<Rightarrow>
        let st3 = emit (ComputeAndStoreFeatures (storage_path output_dir partition')
                          (jobs_arg num_jobs ex) (ex \<noteq> None)) st2 in
        (case compute_and_store_features env cut_set num_mel_bins
               (storage_path output_dir partition') (jobs_arg num_jobs ex) ex of
          Inl e \<Rightarrow> (Some e, st3)
        | Inr cut_set_feats \<Rightarrow>
        let st4 = emit (TrimToSupervisions False None False) st3 in
        (case trim_to_supervisions env cut_set_feats False None False of
          Inl e \<Rightarrow> (Some e, st4)
        | Inr cut_set_trimmed \<Rightarrow>
        let p = path_join output_dir (cuts_filename partition');
            st5 = emit (ToFile p) st4 in
        (case to_file env cut_set_trimmed p of
          WriteFailed e partial \<Rightarrow>
            (Some e, (case partial of None \<Rightarrow> st5
                      | Some c \<Rightarrow> st5\<lparr>files := (files st5)(p \<mapsto> RegularFile c)\<rparr>))
        | Written c \<Rightarrow> (None, st5\<lparr>files := (files st5)(p \<mapsto> RegularFile c)\<rparr>))))))))"

fun process_partitions ::
  "('m, 'cs, 'ex, 'c) mucs_env \<Rightarrow> string \<Rightarrow> nat \<Rightarrow> 'ex option \<Rightarrow>
     (string \<times> (string \<times> 'm) list) list \<Rightarrow> 'c state \<Rightarrow> error option \<times> 'c state" where
  "process_partitions env output_dir num_jobs ex [] st = (None, st)"
| "process_partitions env output_dir num_jobs ex ((partition', m) # rest) st =
     (case process_partition env output_dir num_jobs ex partition' m st of
        (Some e, st') \<Rightarrow> (Some e, st')
      | (None, st') \<Rightarrow> process_partitions env output_dir num_jobs ex rest st')"

definition compute_fbank_mucs ::
  "('m, 'cs, 'ex, 'c) mucs_env \<Rightarrow> mucs_args \<Rightarrow> string option \<Rightarrow> string option \<Rightarrow>
     'c state \<Rightarrow> error option \<times> 'c state" where
  "compute_fbank_mucs env args bpe_model dataset st =
     (case manifestpath args of None \<Rightarrow> (Some TypeError, st) | Some src_dir \<Rightarrow>
     (case fbankpath args of None \<Rightarrow> (Some TypeError, st) | Some output_dir \<Rightarrow>
     (case cpu_count env of None \<Rightarrow> (Some TypeError, st) | Some cpus \<Rightarrow>
      let num_jobs = num_jobs_of cpus;
          loaded =
            (case bpe_model of
               None \<Rightarrow> (None, st)
             | Some path \<Rightarrow>
                 if path = [] then (None, st)
                 else (sp_load env path, emit (SpLoad path) (emit (Log (''Loading '' @ path)) st)))
      in
      (case loaded of
        (Some e, st1) \<Rightarrow> (Some e, st1)
      | (None, st1) \<Rightarrow>
      let st2 = emit (ReadManifestsIfCached dataset_parts src_dir prefix suffix) st1 in
      (case read_manifests_if_cached env dataset_parts src_dir prefix suffix of
        Inl e \<Rightarrow> (Some e, st2)
      | Inr None \<Rightarrow> (Some (AssertionError NoPayload), st2)
      | Inr (Some manifests) \<Rightarrow>
          if length manifests \<noteq> length dataset_parts
          then (Some (AssertionError (ManifestCount (length manifests) (length dataset_parts)
                        (map fst manifests) dataset_parts)), st2)
          else process_partitions env output_dir num_jobs (get_executor env) manifests st2)))))"

subsection \<open>Notions used to state properties of runs\<close>

text \<open>
  The events that stand for work on a partition: building the cut set, computing
  features, trimming, writing the artifact.
\<close>

fun is_work :: "mucs_event \<Rightarrow> bool" where
  "is_work FromManifests = True"
| "is_work (ComputeAndStoreFeatures _ _ _) = True"
| "is_work (TrimToSupervisions _ _ _) = True"
| "is_work (ToFile _) = True"
| "is_work _ = False"

text \<open>The events of the tokenizer block, and when that block goes through.\<close>

definition loading_events :: "string option \<Rightarrow> mucs_event list" where
  "loading_events bpe_model =
     (case bpe_model of
        None \<Rightarrow> []
      | Some path \<Rightarrow> if path = [] then [] else [Log (''Loading '' @ path), SpLoad path])"

definition tokenizer_loads :: "('m, 'cs, 'ex, 'c) mucs_env \<Rightarrow> string option \<Rightarrow> bool" where
  "tokenizer_loads env bpe_model =
     (case bpe_model of None \<Rightarrow> True | Some path \<Rightarrow> path = [] \<or> sp_load env path = None)"

section \<open>transducer/pretrained.py\<close>

subsection \<open>Parameters and command line\<close>

text \<open>
  \<open>get_params\<close>; the \<open>env_info\<close> entry comes from \<open>icefall.env\<close> and is
  only ever printed, so it is left out.
\<close>

record params =
  sample_rate :: int
  feature_dim :: nat
  encoder_out_dim :: nat
  subsampling_factor :: nat
  attention_dim :: nat
  nhead :: nat
  dim_feedforward :: nat
  num_encoder_layers :: nat
  vgg_frontend :: bool
  decoder_embedding_dim :: nat
  num_decoder_layers :: nat
  decoder_hidden_dim :: nat

definition get_params :: params where
  "get_params =
     \<lparr>sample_rate = 16000, feature_dim = 80, encoder_out_dim = 512,
      subsampling_factor = 4, attention_dim = 512, nhead = 8, dim_feedforward = 2048,
      num_encoder_layers = 12, vgg_frontend = False, decoder_embedding_dim = 1024,
      num_decoder_layers = 2, decoder_hidden_dim = 512\<rparr>"

text \<open>
  The parsed command line; \<open>method'\<close> is the \<open>--method\<close> value.
\<close>

record asr_args =
  checkpoint :: string
  bpe_model :: "string option"
  method' :: string
  sound_files :: "string list"
  beam_size :: int

subsection \<open>Tensors\<close>

text \<open>
  A 2-D feature tensor of shape \<open>(T, C)\<close>: the column count and the list of its
  \<open>T\<close> frames. \<open>size0\<close> is \<open>f.size(0)\<close>.
\<close>

datatype 'a matrix = Matrix (ncols: nat) (frames: "'a list list")

definition size0 :: "'a matrix \<Rightarrow> nat" where
  "size0 f = length (frames f)"

text \<open>
  \<open>torch.nn.utils.rnn.pad_sequence(sequences, batch_first=True, padding_value=v)\<close>:
  the result has shape \<open>(N, max_len, C)\<close>, is filled with \<open>v\<close>, and sequence
  \<open>i\<close> is copied into its first rows. The library needs at least one sequence and
  equal trailing dimensions; anything else is an error here.
\<close>

definition max_len :: "'a matrix list \<Rightarrow> nat" where
  "max_len sequences = fold max (map size0 sequences) 0"

definition pad_sequence :: "'a matrix list \<Rightarrow> 'a \<Rightarrow> error + 'a list list list" where
  "pad_sequence sequences padding_value =
     (case sequences of
        [] \<Rightarrow> Inl (LibraryError ''pad_sequence: empty list'')
      | s0 # _ \<Rightarrow>
          if list_ex (\<lambda>s. ncols s \<noteq> ncols s0) sequences
          then Inl (LibraryError ''pad_sequence: size mismatch'')
          else Inr (map (\<lambda>s. frames s @
                          replicate (max_len sequences - size0 s)
                            (replicate (ncols s0) padding_value)) sequences))"

text \<open>Python slicing \<open>xs[:k]\<close>; a negative bound counts from the end.\<close>

definition slice_to :: "int \<Rightarrow> 'a list \<Rightarrow> 'a list" where
  "slice_to k xs = (if 0 \<le> k then take (nat k) xs else take (length xs - nat (- k)) xs)"

subsection \<open>Strings\<close>

text \<open>
  \<open>str.split()\<close> without arguments splits at runs of whitespace and drops empty
  pieces; \<open>" ".join\<close> puts one blank between the pieces. Characters are the code
  points below 256, and \<open>isspace\<close> is Python's \<open>str.isspace\<close> on that range.
\<close>

definition isspace :: "char \<Rightarrow> bool" where
  "isspace c = ((of_char c :: nat) \<in> {9, 10, 11, 12, 13, 28, 29, 30, 31, 32, 133, 160})"

fun split_from :: "string \<Rightarrow> string \<Rightarrow> string list" where
  "split_from cur [] = (if cur = [] then [] else [cur])"
| "split_from cur (c # cs) =
     (if isspace c then (if cur = [] then split_from [] cs else cur # split_from [] cs)
      else split_from (cur @ [c]) cs)"

definition split :: "string \<Rightarrow> string list" where
  "split text = split_from [] text"

fun join :: "string \<Rightarrow> string list \<Rightarrow> string" where
  "join sep [] = []"
| "join sep [w] = w"
| "join sep (w # ws) = w @ sep @ join sep ws"

subsection \<open>Effects and external capabilities\<close>

datatype asr_event =
    Info string
  | InfoParams
  | InfoSoundFiles "string list"
  | CallSpLoad "string option"
  | CallLoadModel string
  | CallTorchaudioLoad string
  | CallFbank
  | CallEncoder
  | CallGreedySearch
  | CallBeamSearch int
  | CallSpDecode

text \<open>
  The collaborators of the inference script: the tokenizer (\<open>sp.load\<close> with the
  two queries that follow it, and \<open>sp.decode\<close>), model construction and checkpoint
  loading, \<open>torchaudio.load\<close> (a tensor of shape \<open>(channels, time)\<close> and the file's
  sample rate), the kaldifeat fbank computer, the encoder, the two search functions of
  \<open>beam_search.py\<close>, whether CUDA is there, and the value of
  \<open>math.log(1e-10)\<close> in the element type of the feature tensors.
\<close>

record ('s, 'a, 'h) asr_env =
  sp_load_asr :: "string option \<Rightarrow> error option"
  load_model :: "string \<Rightarrow> error option"
  cuda_is_available :: bool
  torchaudio_load :: "string \<Rightarrow> error + ('s list list \<times> int)"
  fbank :: "'s list list \<Rightarrow> error + 'a matrix list"
  log_1e_minus_10 :: 'a
  encoder :: "'a list list list \<Rightarrow> nat list \<Rightarrow> error + ('h list list \<times> int list)"
  greedy_search :: "'h list list \<Rightarrow> error + nat list"
  beam_search :: "'h list list \<Rightarrow> int \<Rightarrow> error + nat list"
  sp_decode :: "nat list \<Rightarrow> error + string"

subsection \<open>\<open>read_sound_files\<close>\<close>

text \<open>
  The loop over the file names, with the list \<open>ans\<close> built so far. The
  \<open>assert\<close> is executed (the interpreter does not run with \<open>-O\<close>), and
  \<open>wave[0]\<close> on a tensor without channels is an \<open>IndexError\<close>.
\<close>

fun read_sound_files_loop ::
  "('s, 'a, 'h) asr_env \<Rightarrow> string list \<Rightarrow> int \<Rightarrow> 's list list \<Rightarrow> asr_event list \<Rightarrow>
     (error + 's list list) \<times> asr_event list" where
  "read_sound_files_loop env [] expected_sample_rate ans tr = (Inr ans, tr)"
| "read_sound_files_loop env (f # fs) expected_sample_rate ans tr =
     (let tr1 = tr @ [CallTorchaudioLoad f] in
      (case torchaudio_load env f of
         Inl e \<Rightarrow> (Inl e, tr1)
       | Inr (wave, sample_rate') \<Rightarrow>
           if sample_rate' \<noteq> expected_sample_rate
           then (Inl (AssertionError (Message
                   (''expected sample rate: '' @ str_int expected_sample_rate @
                    ''. Given: '' @ str_int sample_rate'))), tr1)
           else (case wave of
                   [] \<Rightarrow> (Inl IndexError, tr1)
                 | channel0 # _ \<Rightarrow>
                     read_sound_files_loop env fs expected_sample_rate (ans @ [channel0]) tr1)))"

definition read_sound_files ::
  "('s, 'a, 'h) asr_env \<Rightarrow> string list \<Rightarrow> int \<Rightarrow> asr_event list \<Rightarrow>
     (error + 's list list) \<times> asr_event list" where
  "read_sound_files env filenames expected_sample_rate tr =
     read_sound_files_loop env filenames expected_sample_rate [] tr"

subsection \<open>\<open>main\<close>\<close>

text \<open>Lines 253 to 257: the frame counts, then the padded batch.\<close>

definition assemble_batch ::
  "'a matrix list \<Rightarrow> 'a \<Rightarrow> error + (nat list \<times> 'a list list list)" where
  "assemble_batch features padding_value =
     (let feature_lengths = map size0 features in
      (case pad_sequence features padding_value of
         Inl e \<Rightarrow> Inl e
       | Inr batch \<Rightarrow> Inr (feature_lengths, batch)))"

text \<open>The \<open>if\<close>/\<open>elif\<close>/\<open>else\<close> on \<open>params.method\<close>, with the call it makes.\<close>

definition dispatch ::
  "('s, 'a, 'h) asr_env \<Rightarrow> asr_args \<Rightarrow> 'h list list \<Rightarrow> (error + nat list) \<times> asr_event list" where
  "dispatch env args encoder_out_i =
     (if method' args = ''greedy_search''
      then (greedy_search env encoder_out_i, [CallGreedySearch])
      else if method' args = ''beam_search''
      then (beam_search env encoder_out_i (beam_size args), [CallBeamSearch (beam_size args)])
      else (Inl (ValueError (''Unsupported method: '' @ method' args)), []))"

text \<open>The loop \<open>for i in range(num_waves)\<close>, over the indices still to do.\<close>

fun decode_loop ::
  "('s, 'a, 'h) asr_env \<Rightarrow> asr_args \<Rightarrow> 'h list list \<Rightarrow> int list \<Rightarrow> nat list \<Rightarrow>
     string list list \<Rightarrow> asr_event list \<Rightarrow> (error + string list list) \<times> asr_event list" where
  "decode_loop env args encoder_out encoder_out_lens [] hyps tr = (Inr hyps, tr)"
| "decode_loop env args encoder_out encoder_out_lens (i # rest) hyps tr =
     (if length encoder_out_lens \<le> i then (Inl IndexError, tr)
      else
        let encoder_out_i = [slice_to (encoder_out_lens ! i) (encoder_out ! i)] in
        (case dispatch env args encoder_out_i of
           (Inl e, evs) \<Rightarrow> (Inl e, tr @ evs)
         | (Inr hyp, evs) \<Rightarrow>
             (case sp_decode env hyp of
                Inl e \<Rightarrow> (Inl e, tr @ evs @ [CallSpDecode])
              | Inr text \<Rightarrow>
                  decode_loop env args encoder_out encoder_out_lens rest
                    (hyps @ [split text]) (tr @ evs @ [CallSpDecode]))))"

definition block :: "string \<times> string list \<Rightarrow> string" where
  "block fh = (case fh of (filename, hyp) \<Rightarrow>
     filename @ [CHR '':'', CHR 0x0A] @ join '' '' hyp @ [CHR 0x0A, CHR 0x0A])"

definition transcript :: "string list \<Rightarrow> string list list \<Rightarrow> string" where
  "transcript filenames hyps = [CHR 0x0A] @ concat (map block (zip filenames hyps))"

definition device :: "('s, 'a, 'h) asr_env \<Rightarrow> string" where
  "device env = (if cuda_is_available env then ''cuda:0'' else ''cpu'')"

text \<open>
  \<open>main\<close> up to the encoder call: tokenizer, model, fbank computer, waveforms,
  features, batch, encoder. Building the fbank options has no effect that matters here.
\<close>

definition encode_stage ::
  "('s, 'a, 'h) asr_env \<Rightarrow> asr_args \<Rightarrow> asr_event list \<Rightarrow>
     (error + ('h list list \<times> int list)) \<times> asr_event list" where
  "encode_stage env args tr0 =
     (let params = get_params;
          tr1 = tr0 @ [CallSpLoad (bpe_model args)] in
      (case sp_load_asr env (bpe_model args) of
         Some e \<Rightarrow> (Inl e, tr1)
       | None \<Rightarrow>
      let tr2 = tr1 @ [InfoParams, Info (''device: '' @ device env), Info ''Creating model'',
                       CallLoadModel (checkpoint args)] in
      (case load_model env (checkpoint args) of
         Some e \<Rightarrow> (Inl e, tr2)
       | None \<Rightarrow>
      let tr3 = tr2 @ [Info ''Constructing Fbank computer'', InfoSoundFiles (sound_files args)] in
      (case read_sound_files env (sound_files args) (sample_rate params) tr3 of
         (Inl e, tr4) \<Rightarrow> (Inl e, tr4)
       | (Inr waves, tr4) \<Rightarrow>
      let tr5 = tr4 @ [Info ''Decoding started'', CallFbank] in
      (case fbank env waves of
         Inl e \<Rightarrow> (Inl e, tr5)
       | Inr features \<Rightarrow>
      (case assemble_batch features (log_1e_minus_10 env) of
         Inl e \<Rightarrow> (Inl e, tr5)
       | Inr (feature_lengths, batch) \<Rightarrow>
      let tr6 = tr5 @ [CallEncoder] in
      (case encoder env batch feature_lengths of
         Inl e \<Rightarrow> (Inl e, tr6)
       | Inr (encoder_out, encoder_out_lens) \<Rightarrow>
           (Inr (encoder_out, encoder_out_lens), tr6))))))))"

definition main ::
  "('s, 'a, 'h) asr_env \<Rightarrow> asr_args \<Rightarrow> asr_event list \<Rightarrow> error option \<times> asr_event list" where
  "main env args tr0 =
     (case encode_stage env args tr0 of
        (Inl e, tr) \<Rightarrow> (Some e, tr)
      | (Inr (encoder_out, encoder_out_lens), tr6) \<Rightarrow>
      let num_waves = length encoder_out in
      (case decode_loop env args encoder_out encoder_out_lens [0..<num_waves] [] tr6 of
         (Inl e, tr7) \<Rightarrow> (Some e, tr7)
       | (Inr hyps, tr7) \<Rightarrow>
           (None, tr7 @ [Info (transcript (sound_files args) hyps),
                         Info ''Decoding Done''])))"

subsection \<open>Notions used to state properties of runs\<close>

text \<open>The first channel of what \<open>torchaudio.load\<close> returns for a file.\<close>

definition first_channel :: "('s, 'a, 'h) asr_env \<Rightarrow> string \<Rightarrow> 's list" where
  "first_channel env f =
     (case torchaudio_load env f of Inr (channel0 # _, _) \<Rightarrow> channel0 | _ \<Rightarrow> [])"

text \<open>
  The words of utterance \<open>i\<close>: its slice of the encoder output, dispatched,
  detokenized and split (\<open>[]\<close> if one of the calls fails).
\<close>

definition decoded ::
  "('s, 'a, 'h) asr_env \<Rightarrow> asr_args \<Rightarrow> 'h list list \<Rightarrow> int list \<Rightarrow> nat \<Rightarrow> string list" where
  "decoded env args encoder_out encoder_out_lens i =
     (case fst (dispatch env args [slice_to (encoder_out_lens ! i) (encoder_out ! i)]) of
        Inl e \<Rightarrow> []
      | Inr hyp \<Rightarrow> (case sp_decode env hyp of Inl e \<Rightarrow> [] | Inr text \<Rightarrow> split text))"

text \<open>
  The events up to and including the reading of the sound files, and the events up to
  and including the encoder call.
\<close>

fun loading_event :: "asr_event \<Rightarrow> bool" where
  "loading_event (Info s) =
     (s = ''device: cpu'' \<or> s = ''device: cuda:0'' \<or> s = ''Creating model'' \<or>
      s = ''Constructing Fbank computer'')"
| "loading_event InfoParams = True"
| "loading_event (InfoSoundFiles _) = True"
| "loading_event (CallSpLoad _) = True"
| "loading_event (CallLoadModel _) = True"
| "loading_event (CallTorchaudioLoad _) = True"
| "loading_event _ = False"

fun front_event :: "asr_event \<Rightarrow> bool" where
  "front_event (Info s) = (loading_event (Info s) \<or> s = ''Decoding started'')"
| "front_event CallFbank = True"
| "front_event CallEncoder = True"
| "front_event e = loading_event e"

section \<open>Concrete inputs\<close>

text \<open>
  A small world for the caching pipeline: four cores, no external executor, a manifest
  for every requested partition, and library calls that succeed and leave a mark on the
  cut set they return.
\<close>

definition example_manifests :: "string list \<Rightarrow> string \<Rightarrow> (string \<times> (string \<times> string) list) list" where
  "example_manifests parts src =
     map (\<lambda>p. (p, [(''recordings'', src @ ''/r_'' @ p), (''supervisions'', src @ ''/s_'' @ p)])) parts"

definition example_env :: "(string, string list, unit, string list) mucs_env" where
  "example_env =
     \<lparr>cpu_count = Some 4,
      sp_load = (\<lambda>p. if p = ''bpe.model'' then None else Some (LibraryError ''Not found'')),
      read_manifests_if_cached = (\<lambda>parts src pre suf. Inr (Some (example_manifests parts src))),
      get_executor = None,
      from_manifests = (\<lambda>r s. Inr [r, s]),
      compute_and_store_features = (\<lambda>cs bins sp nj ex. Inr (cs @ [sp])),
      trim_to_supervisions = (\<lambda>cs ko md kc. Inr (cs @ [''trimmed''])),
      to_file = (\<lambda>cs p. Written cs)\<rparr>"

definition example_args :: mucs_args where
  "example_args =
     \<lparr>bpe_model_arg = None, dataset_arg = None, manifestpath = Some ''m'', fbankpath = Some ''o''\<rparr>"

definition empty_state :: "string list state" where
  "empty_state = \<lparr>files = Map.empty, trace = []\<rparr>"

text \<open>The state this world is in after one run from an empty output directory.\<close>

definition first_run :: "string list state" where
  "first_run = snd (compute_fbank_mucs example_env example_args None None empty_state)"

text \<open>The same world with the manifests of the first partition missing.\<close>

definition env_missing_train :: "(string, string list, unit, string list) mucs_env" where
  "env_missing_train =
     example_env\<lparr>read_manifests_if_cached :=
       (\<lambda>parts src pre suf. Inr (Some (example_manifests (tl parts) src)))\<rparr>"

text \<open>An output directory in which all three artifacts are already there.\<close>

definition complete_state :: "string list state" where
  "complete_state =
     \<lparr>files = [''o/mucs_cuts_train.jsonl.gz'' \<mapsto> RegularFile [],
               ''o/mucs_cuts_test.jsonl.gz'' \<mapsto> RegularFile [],
               ''o/mucs_cuts_dev.jsonl.gz'' \<mapsto> RegularFile []],
      trace = []\<rparr>"

text \<open>The same world in which feature computation fails on the second partition.\<close>

definition env_failing_test :: "(string, string list, unit, string list) mucs_env" where
  "env_failing_test =
     example_env\<lparr>compute_and_store_features :=
       (\<lambda>cs bins sp nj ex.
          if sp = ''o/mucs_feats_test'' then Inl (LibraryError ''worker died'')
          else Inr (cs @ [sp]))\<rparr>"

definition failed_run :: "string list state" where
  "failed_run =
     snd (process_partitions env_failing_test ''o'' 4 None
            (example_manifests dataset_parts ''m'') empty_state)"

text \<open>
  A small world for the inference script: samples, feature values and hidden states are
  integers, a feature frame per sample, and an encoder that sums every frame.
\<close>

definition example_asr_env :: "(int, int, int) asr_env" where
  "example_asr_env =
     \<lparr>sp_load_asr = (\<lambda>p. if p = Some ''bpe.model'' then None
                          else Some (LibraryError ''Not found'')),
      load_model = (\<lambda>c. None),
      cuda_is_available = False,
      torchaudio_load =
        (\<lambda>f. if f = ''a.wav'' then Inr ([[1, 2, 3], [9, 9, 9]], 16000)
             else if f = ''b.wav'' then Inr ([[4]], 16000)
             else if f = ''c.wav'' then Inr ([[5, 6]], 8000)
             else Inl (LibraryError ''no such file'')),
      fbank = (\<lambda>waves. Inr (map (\<lambda>w. Matrix 2 (map (\<lambda>x. [x, x + 1]) w)) waves)),
      log_1e_minus_10 = - 23,
      encoder = (\<lambda>batch lens. Inr (map (map sum_list) batch, map int lens)),
      greedy_search = (\<lambda>x. Inr (map nat (concat x))),
      beam_search = (\<lambda>x beam. Inr (rev (map nat (concat x)))),
      sp_decode = (\<lambda>toks. Inr (concat (map (\<lambda>t. '' t'' @ str_nat t) toks)))\<rparr>"

definition example_asr_args :: asr_args where
  "example_asr_args =
     \<lparr>checkpoint = ''pretrained.pt'', bpe_model = Some ''bpe.model'',
      method' = ''greedy_search'', sound_files = [''a.wav'', ''b.wav''], beam_size = 5\<rparr>"

section \<open>The caching pipeline: facts about the partition loop\<close>

lemma trace_emit: "trace (emit e st) = trace st @ [e]"
  by (simp add: emit_def)

lemma files_emit: "files (emit e st) = files st"
  by (simp add: emit_def)

lemma process_partition_skip:
  "is_file (files st) (path_join output_dir (cuts_filename p)) \<Longrightarrow>
   process_partition env output_dir nj ex p m st =
     (None, emit (Log (p @ '' already exists - skipping.'')) st)"
  by (simp add: process_partition_def)

lemma is_file_upd:
  "is_file fs q \<Longrightarrow> is_file (fs(p \<mapsto> RegularFile c)) q"
  by (simp add: is_file_def)

lemma is_file_upd_same: "is_file (fs(p \<mapsto> RegularFile c)) p"
  by (simp add: is_file_def)

lemma process_partition_files_mono:
  "process_partition env output_dir nj ex p m st = (r, st') \<Longrightarrow>
   is_file (files st) q \<Longrightarrow> is_file (files st') q"
  unfolding process_partition_def Let_def
  by (auto split: if_splits option.splits sum.splits write_result.splits
           simp: files_emit is_file_upd)

lemma process_partition_done:
  "process_partition env output_dir nj ex p m st = (None, st') \<Longrightarrow>
   is_file (files st') (path_join output_dir (cuts_filename p))"
  unfolding process_partition_def Let_def
  by (auto split: if_splits option.splits sum.splits write_result.splits
           simp: files_emit is_file_upd_same)

lemma storage_path_not_artifact:
  "storage_path od p \<noteq> path_join od (cuts_filename q)"
  by (simp add: storage_path_def path_join_def cuts_filename_def prefix_def suffix_def)

text \<open>
  A step of the loop reads the state only through its files: started with another
  trace, it appends the same events and leaves the same files.
\<close>

lemma process_partition_trace:
  "process_partition env od nj ex p m st = (r, st') \<Longrightarrow>
   \<exists>evs. trace st' = trace st @ evs \<and>
     (\<forall>t. process_partition env od nj ex p m (st\<lparr>trace := t\<rparr>) = (r, st'\<lparr>trace := t @ evs\<rparr>))"
  unfolding process_partition_def Let_def emit_def
  by (auto split: if_splits option.splits sum.splits write_result.splits)

lemma process_partitions_trace:
  "process_partitions env od nj ex items st = (r, st') \<Longrightarrow>
   \<exists>evs. trace st' = trace st @ evs \<and>
     (\<forall>t. process_partitions env od nj ex items (st\<lparr>trace := t\<rparr>) = (r, st'\<lparr>trace := t @ evs\<rparr>))"
proof (induction items arbitrary: st)
  case Nil
  then show ?case by auto
next
  case (Cons item items)
  obtain p m where item: "item = (p, m)" by (cases item)
  obtain r1 st1 where step: "process_partition env od nj ex p m st = (r1, st1)"
    by (cases "process_partition env od nj ex p m st")
  from process_partition_trace[OF step] obtain evs1 where
    e1: "trace st1 = trace st @ evs1" and
    i1: "\<And>t. process_partition env od nj ex p m (st\<lparr>trace := t\<rparr>) = (r1, st1\<lparr>trace := t @ evs1\<rparr>)"
    by blast
  show ?case
  proof (cases r1)
    case None
    with Cons.prems item step
    have rest: "process_partitions env od nj ex items st1 = (r, st')" by simp
    from Cons.IH[OF rest] obtain evs2 where
      e2: "trace st' = trace st1 @ evs2" and
      i2: "\<And>t. process_partitions env od nj ex items (st1\<lparr>trace := t\<rparr>) = (r, st'\<lparr>trace := t @ evs2\<rparr>)"
      by blast
    have "trace st' = trace st @ (evs1 @ evs2)" using e1 e2 by simp
    moreover have "\<And>t. process_partitions env od nj ex (item # items) (st\<lparr>trace := t\<rparr>)
        = (r, st'\<lparr>trace := t @ (evs1 @ evs2)\<rparr>)"
      using item i1 i2 None by simp
    ultimately show ?thesis by blast
  next
    case (Some e)
    with Cons.prems item step have eq: "st' = st1" "r = Some e" by simp_all
    have "\<And>t. process_partitions env od nj ex (item # items) (st\<lparr>trace := t\<rparr>)
        = (r, st'\<lparr>trace := t @ evs1\<rparr>)"
      using item i1 Some eq by simp
    with e1 eq show ?thesis by blast
  qed
qed

lemma process_partitions_files_mono:
  "process_partitions env od nj ex items st = (r, st') \<Longrightarrow>
   is_file (files st) q \<Longrightarrow> is_file (files st') q"
proof (induction items arbitrary: st)
  case Nil
  then show ?case by simp
next
  case (Cons item items)
  obtain p m where item: "item = (p, m)" by (cases item)
  obtain r1 st1 where step: "process_partition env od nj ex p m st = (r1, st1)"
    by (cases "process_partition env od nj ex p m st")
  have q1: "is_file (files st1) q"
    using process_partition_files_mono[OF step Cons.prems(2)] .
  show ?case
  proof (cases r1)
    case None
    with Cons.prems item step
    have "process_partitions env od nj ex items st1 = (r, st')" by simp
    from Cons.IH[OF this q1] show ?thesis .
  next
    case (Some e)
    with Cons.prems item step have "st' = st1" by simp
    with q1 show ?thesis by simp
  qed
qed

lemma process_partitions_done:
  "process_partitions env od nj ex items st = (None, st') \<Longrightarrow>
   (p, m) \<in> set items \<Longrightarrow> is_file (files st') (path_join od (cuts_filename p))"
proof (induction items arbitrary: st)
  case Nil
  then show ?case by simp
next
  case (Cons item items)
  obtain p1 m1 where item: "item = (p1, m1)" by (cases item)
  obtain r1 st1 where step: "process_partition env od nj ex p1 m1 st = (r1, st1)"
    by (cases "process_partition env od nj ex p1 m1 st")
  from Cons.prems(1) item step have r1: "r1 = None"
    by (cases r1) simp_all
  with Cons.prems(1) item step
  have rest: "process_partitions env od nj ex items st1 = (None, st')" by simp
  show ?case
  proof (cases "(p, m) \<in> set items")
    case True
    from Cons.IH[OF rest True] show ?thesis .
  next
    case False
    with Cons.prems(2) item have "p = p1" by simp
    with process_partition_done step r1
    have "is_file (files st1) (path_join od (cuts_filename p))" by blast
    from process_partitions_files_mono[OF rest this] show ?thesis .
  qed
qed

lemma process_partitions_all_skipped:
  "\<forall>(p, m) \<in> set items. is_file (files st) (path_join od (cuts_filename p)) \<Longrightarrow>
   process_partitions env od nj ex items st =
     (None, st\<lparr>trace := trace st @
               map (\<lambda>(p, m). Log (p @ '' already exists - skipping.'')) items\<rparr>)"
proof (induction items arbitrary: st)
  case Nil
  then show ?case by simp
next
  case (Cons item items)
  obtain p m where item: "item = (p, m)" by (cases item)
  let ?st1 = "emit (Log (p @ '' already exists - skipping.'')) st"
  from Cons.prems item
  have step: "process_partition env od nj ex p m st = (None, ?st1)"
    by (simp add: process_partition_skip)
  have "\<forall>(q, mq) \<in> set items. is_file (files ?st1) (path_join od (cuts_filename q))"
    using Cons.prems by (simp add: files_emit)
  from Cons.IH[OF this] step item show ?case
    by (simp add: emit_def)
qed

lemma process_partitions_append:
  "process_partitions env od nj ex (xs @ ys) st =
     (case process_partitions env od nj ex xs st of
        (Some e, s) \<Rightarrow> (Some e, s)
      | (None, s) \<Rightarrow> process_partitions env od nj ex ys s)"
proof (induction xs arbitrary: st)
  case Nil
  then show ?case by simp
next
  case (Cons item xs)
  obtain p m where item: "item = (p, m)" by (cases item)
  show ?case
    using Cons.IH item
    by (simp split: prod.splits option.splits)
qed

text \<open>What one step of the loop does when the artifact is not there.\<close>

lemma process_partition_written:
  assumes "process_partition env od nj ex p m st = (None, st')"
      and "\<not> is_file (files st) (path_join od (cuts_filename p))"
  shows "\<exists>recordings supervisions cut_set feats trimmed c.
           map_of m ''recordings'' = Some recordings \<and>
           map_of m ''supervisions'' = Some supervisions \<and>
           from_manifests env recordings supervisions = Inr cut_set \<and>
           compute_and_store_features env cut_set num_mel_bins (storage_path od p)
             (jobs_arg nj ex) ex = Inr feats \<and>
           trim_to_supervisions env feats False None False = Inr trimmed \<and>
           to_file env trimmed (path_join od (cuts_filename p)) = Written c \<and>
           files st' = (files st)(path_join od (cuts_filename p) \<mapsto> RegularFile c) \<and>
           trace st' = trace st @
             [Log (''Processing '' @ p), FromManifests,
              ComputeAndStoreFeatures (storage_path od p) (jobs_arg nj ex) (ex \<noteq> None),
              TrimToSupervisions False None False,
              ToFile (path_join od (cuts_filename p))]"
  using assms
  unfolding process_partition_def Let_def emit_def
  by (auto split: if_splits option.splits sum.splits write_result.splits)

lemma process_partition_failed:
  assumes "process_partition env od nj ex p m st = (Some e, st')"
      and "\<forall>q. last (trace st') \<noteq> ToFile q"
  shows "files st' = files st \<and> \<not> is_file (files st) (path_join od (cuts_filename p)) \<and>
         (\<exists>evs. trace st' = trace st @ Log (''Processing '' @ p) # evs \<and>
                (\<forall>e \<in> set evs. is_work e))"
  using assms
  unfolding process_partition_def Let_def emit_def
  by (auto split: if_splits option.splits sum.splits write_result.splits)

lemma process_partition_files_changed:
  assumes "process_partition env od nj ex p m st = (r, st')"
      and "files st' \<noteq> files st"
  shows "\<exists>sp j b. trace st' = trace st @
             [Log (''Processing '' @ p), FromManifests, ComputeAndStoreFeatures sp j b,
              TrimToSupervisions False None False,
              ToFile (path_join od (cuts_filename p))]"
  using assms
  unfolding process_partition_def Let_def emit_def
  by (auto split: if_splits option.splits sum.splits write_result.splits)

lemma process_partition_started:
  assumes "\<not> is_file (files st) (path_join od (cuts_filename p))"
  shows "\<exists>evs. trace (snd (process_partition env od nj ex p m st)) =
           trace st @ Log (''Processing '' @ p) # evs"
  using assms
  unfolding process_partition_def Let_def emit_def
  by (auto split: if_splits option.splits sum.splits write_result.splits)

text \<open>Once the preliminaries go through, the function is the loop.\<close>

lemma compute_fbank_mucs_loop:
  assumes "manifestpath args = Some src" and "fbankpath args = Some od"
      and "cpu_count env = Some cpus" and "tokenizer_loads env bpe"
      and "read_manifests_if_cached env dataset_parts src prefix suffix = Inr (Some manifests)"
      and "length manifests = length dataset_parts"
  shows "compute_fbank_mucs env args bpe ds st =
           process_partitions env od (num_jobs_of cpus) (get_executor env) manifests
             (st\<lparr>trace := trace st @ loading_events bpe @
                  [ReadManifestsIfCached dataset_parts src prefix suffix]\<rparr>)"
  using assms
  unfolding compute_fbank_mucs_def Let_def emit_def tokenizer_loads_def loading_events_def
  by (auto split: option.splits)

lemma compute_fbank_mucs_success:
  assumes "compute_fbank_mucs env args bpe ds st = (None, st1)"
  shows "\<exists>src od cpus manifests.
           manifestpath args = Some src \<and> fbankpath args = Some od \<and>
           cpu_count env = Some cpus \<and> tokenizer_loads env bpe \<and>
           read_manifests_if_cached env dataset_parts src prefix suffix = Inr (Some manifests) \<and>
           length manifests = length dataset_parts"
  using assms
  unfolding compute_fbank_mucs_def Let_def emit_def tokenizer_loads_def
  by (auto split: option.splits sum.splits if_splits prod.splits)

lemma not_work_skips:
  "\<forall>e \<in> set (map (\<lambda>(p, m). Log (p @ '' already exists - skipping.'')) items). \<not> is_work e"
  by (induction items) auto

lemma not_work_loading: "\<forall>e \<in> set (loading_events bpe). \<not> is_work e"
  by (auto simp: loading_events_def split: option.splits)

text \<open>The concrete runs, evaluated.\<close>

lemmas mucs_eval =
  compute_fbank_mucs_def example_env_def example_args_def empty_state_def num_jobs_of_def
  dataset_parts_def prefix_def suffix_def example_manifests_def process_partition_def
  is_file_def path_join_def cuts_filename_def emit_def storage_path_def jobs_arg_def
  num_mel_bins_def Let_def

lemma first_run_value:
  "compute_fbank_mucs example_env example_args None None empty_state =
     (None,
      \<lparr>files = [''o/mucs_cuts_train.jsonl.gz'' \<mapsto>
                 RegularFile [''m/r_train'', ''m/s_train'', ''o/mucs_feats_train'', ''trimmed''],
               ''o/mucs_cuts_test.jsonl.gz'' \<mapsto>
                 RegularFile [''m/r_test'', ''m/s_test'', ''o/mucs_feats_test'', ''trimmed''],
               ''o/mucs_cuts_dev.jsonl.gz'' \<mapsto>
                 RegularFile [''m/r_dev'', ''m/s_dev'', ''o/mucs_feats_dev'', ''trimmed'']],
       trace =
         [ReadManifestsIfCached [''train'', ''test'', ''dev''] ''m'' ''mucs'' ''jsonl.gz'',
          Log ''Processing train'', FromManifests,
          ComputeAndStoreFeatures ''o/mucs_feats_train'' 4 False,
          TrimToSupervisions False None False, ToFile ''o/mucs_cuts_train.jsonl.gz'',
          Log ''Processing test'', FromManifests,
          ComputeAndStoreFeatures ''o/mucs_feats_test'' 4 False,
          TrimToSupervisions False None False, ToFile ''o/mucs_cuts_test.jsonl.gz'',
          Log ''Processing dev'', FromManifests,
          ComputeAndStoreFeatures ''o/mucs_feats_dev'' 4 False,
          TrimToSupervisions False None False, ToFile ''o/mucs_cuts_dev.jsonl.gz'']\<rparr>)"
  by (simp add: mucs_eval)

lemma second_run_value:
  "compute_fbank_mucs example_env example_args None None first_run =
     (None, first_run\<lparr>trace := trace first_run @
        [ReadManifestsIfCached [''train'', ''test'', ''dev''] ''m'' ''mucs'' ''jsonl.gz'',
         Log ''train already exists - skipping.'',
         Log ''test already exists - skipping.'',
         Log ''dev already exists - skipping.'']\<rparr>)"
  unfolding first_run_def first_run_value
  by (simp add: mucs_eval)

lemma compute_fbank_mucs_early:
  "manifestpath args = None \<or> fbankpath args = None \<or> cpu_count env = None \<Longrightarrow>
   compute_fbank_mucs env args b ds st = (Some TypeError, st)"
  unfolding compute_fbank_mucs_def
  by (auto split: option.splits)

lemma compute_fbank_mucs_tokenizer:
  "manifestpath args = Some src \<Longrightarrow> fbankpath args = Some od \<Longrightarrow>
   cpu_count env = Some cpus \<Longrightarrow> tokenizer_loads env b \<Longrightarrow>
   compute_fbank_mucs env args b ds st =
     compute_fbank_mucs env args None ds' (st\<lparr>trace := trace st @ loading_events b\<rparr>)"
  unfolding compute_fbank_mucs_def Let_def emit_def tokenizer_loads_def loading_events_def
  by (auto split: option.splits sum.splits)

lemma compute_fbank_mucs_args:
  "compute_fbank_mucs env (args\<lparr>bpe_model_arg := b'\<rparr>) b ds s =
   compute_fbank_mucs env args b ds s"
  by (simp add: compute_fbank_mucs_def split: option.splits)

lemma compute_fbank_mucs_trace:
  assumes "compute_fbank_mucs env args None ds st = (r, st')"
  shows "\<exists>evs. trace st' = trace st @ evs \<and>
     (\<forall>t. compute_fbank_mucs env args None ds (st\<lparr>trace := t\<rparr>) = (r, st'\<lparr>trace := t @ evs\<rparr>))"
proof (cases "\<exists>src od cpus manifests.
           manifestpath args = Some src \<and> fbankpath args = Some od \<and>
           cpu_count env = Some cpus \<and>
           read_manifests_if_cached env dataset_parts src prefix suffix = Inr (Some manifests) \<and>
           length manifests = length dataset_parts")
  case True
  then obtain src od cpus manifests where
    f: "manifestpath args = Some src" "fbankpath args = Some od"
       "cpu_count env = Some cpus"
       "read_manifests_if_cached env dataset_parts src prefix suffix = Inr (Some manifests)"
       "length manifests = length dataset_parts"
    by blast
  have tl: "tokenizer_loads env None" by (simp add: tokenizer_loads_def)
  let ?rd = "ReadManifestsIfCached dataset_parts src prefix suffix"
  have loop: "\<And>s. compute_fbank_mucs env args None ds s =
           process_partitions env od (num_jobs_of cpus) (get_executor env) manifests
             (s\<lparr>trace := trace s @ [?rd]\<rparr>)"
    using compute_fbank_mucs_loop[OF f(1,2,3) tl f(4,5)] by (simp add: loading_events_def)
  from assms loop[of st]
  have "process_partitions env od (num_jobs_of cpus) (get_executor env) manifests
             (st\<lparr>trace := trace st @ [?rd]\<rparr>) = (r, st')" by simp
  from process_partitions_trace[OF this] obtain evs where
    e: "trace st' = (trace st @ [?rd]) @ evs" and
    i: "\<And>t. process_partitions env od (num_jobs_of cpus) (get_executor env) manifests
             (st\<lparr>trace := t\<rparr>) = (r, st'\<lparr>trace := t @ evs\<rparr>)"
    by auto
  have "trace st' = trace st @ (?rd # evs)" using e by simp
  moreover have "\<And>t. compute_fbank_mucs env args None ds (st\<lparr>trace := t\<rparr>)
        = (r, st'\<lparr>trace := t @ (?rd # evs)\<rparr>)"
    using loop i by simp
  ultimately show ?thesis by blast
next
  case False
  with assms show ?thesis
    unfolding compute_fbank_mucs_def Let_def emit_def
    by (auto split: option.splits sum.splits if_splits)
qed

lemma process_partitions_failed:
  assumes "process_partitions env od nj ex items st = (Some e, st1)"
      and "\<forall>q. last (trace st1) \<noteq> ToFile q"
  shows "\<exists>pre p m post. items = pre @ (p, m) # post \<and>
           (\<forall>(q, mq) \<in> set pre. is_file (files st1) (path_join od (cuts_filename q))) \<and>
           \<not> is_file (files st1) (path_join od (cuts_filename p)) \<and>
           (\<exists>tr evs. trace st1 = tr @ Log (''Processing '' @ p) # evs \<and>
                     (\<forall>e \<in> set evs. is_work e))"
  using assms
proof (induction items arbitrary: st)
  case Nil
  then show ?case by simp
next
  case (Cons item items)
  obtain p1 m1 where item: "item = (p1, m1)" by (cases item)
  obtain r1 s1 where step: "process_partition env od nj ex p1 m1 st = (r1, s1)"
    by (cases "process_partition env od nj ex p1 m1 st")
  show ?case
  proof (cases r1)
    case None
    with Cons.prems(1) item step
    have rest: "process_partitions env od nj ex items s1 = (Some e, st1)" by simp
    from Cons.IH[OF rest Cons.prems(2)] obtain pre p m post where
      IH: "items = pre @ (p, m) # post"
          "\<forall>(q, mq) \<in> set pre. is_file (files st1) (path_join od (cuts_filename q))"
          "\<not> is_file (files st1) (path_join od (cuts_filename p))"
          "\<exists>tr evs. trace st1 = tr @ Log (''Processing '' @ p) # evs \<and> (\<forall>e \<in> set evs. is_work e)"
      by blast
    have "is_file (files s1) (path_join od (cuts_filename p1))"
      using process_partition_done step None by blast
    from process_partitions_files_mono[OF rest this]
    have "\<forall>(q, mq) \<in> set ((p1, m1) # pre). is_file (files st1) (path_join od (cuts_filename q))"
      using IH(2) by simp
    moreover have "item # items = ((p1, m1) # pre) @ (p, m) # post"
      using IH(1) item by simp
    ultimately show ?thesis using IH(3,4) by blast
  next
    case (Some e1)
    with Cons.prems(1) item step have eq: "st1 = s1" "e1 = e" by simp_all
    from process_partition_failed[of env od nj ex p1 m1 st e st1] step Some eq Cons.prems(2)
    have "files st1 = files st" "\<not> is_file (files st) (path_join od (cuts_filename p1))"
         "\<exists>evs. trace st1 = trace st @ Log (''Processing '' @ p1) # evs \<and> (\<forall>e \<in> set evs. is_work e)"
      by simp_all
    moreover have "item # items = [] @ (p1, m1) # items" using item by simp
    ultimately show ?thesis
      by (metis (no_types, lifting) empty_iff list.set(1))
  qed
qed

lemma process_partitions_rerun:
  assumes "\<forall>(q, mq) \<in> set pre. is_file (files s) (path_join od (cuts_filename q))"
      and "\<not> is_file (files s) (path_join od (cuts_filename p))"
  shows "\<exists>evs. trace (snd (process_partitions env od nj ex (pre @ (p, m) # post) s)) =
           trace s @ map (\<lambda>(q, mq). Log (q @ '' already exists - skipping.'')) pre @
           Log (''Processing '' @ p) # evs"
proof -
  let ?skips = "map (\<lambda>(q, mq). Log (q @ '' already exists - skipping.'')) pre"
  let ?s2 = "s\<lparr>trace := trace s @ ?skips\<rparr>"
  have pre: "process_partitions env od nj ex pre s = (None, ?s2)"
    using process_partitions_all_skipped[OF assms(1)] .
  have nf: "\<not> is_file (files ?s2) (path_join od (cuts_filename p))"
    using assms(2) by simp
  obtain r3 s3 where step: "process_partition env od nj ex p m ?s2 = (r3, s3)"
    by (cases "process_partition env od nj ex p m ?s2")
  from process_partition_started[OF nf, of env nj ex m] step obtain evs1 where
    t3: "trace s3 = trace ?s2 @ Log (''Processing '' @ p) # evs1"
    by auto
  show ?thesis
  proof (cases r3)
    case None
    obtain r4 s4 where rest: "process_partitions env od nj ex post s3 = (r4, s4)"
      by (cases "process_partitions env od nj ex post s3")
    from process_partitions_trace[OF rest] obtain evs2 where
      t4: "trace s4 = trace s3 @ evs2" by blast
    have "process_partitions env od nj ex (pre @ (p, m) # post) s = (r4, s4)"
      using pre step None rest by (simp add: process_partitions_append)
    then show ?thesis using t3 t4 by simp
  next
    case (Some e)
    have "process_partitions env od nj ex (pre @ (p, m) # post) s = (Some e, s3)"
      using pre step Some by (simp add: process_partitions_append)
    then show ?thesis using t3 by simp
  qed
qed

lemma process_partition_jobs:
  "process_partition env output_dir nj ex p m st = (r, st') \<Longrightarrow>
   ComputeAndStoreFeatures sp j b \<in> set (trace st') \<Longrightarrow>
   ComputeAndStoreFeatures sp j b \<in> set (trace st) \<or> (j = jobs_arg nj ex \<and> b = (ex \<noteq> None))"
  unfolding process_partition_def Let_def
  by (auto split: if_splits option.splits sum.splits write_result.splits
           simp: trace_emit)

lemma process_partitions_jobs:
  "process_partitions env output_dir nj ex items st = (r, st') \<Longrightarrow>
   ComputeAndStoreFeatures sp j b \<in> set (trace st') \<Longrightarrow>
   ComputeAndStoreFeatures sp j b \<in> set (trace st) \<or> (j = jobs_arg nj ex \<and> b = (ex \<noteq> None))"
proof (induction items arbitrary: st)
  case Nil
  then show ?case by simp
next
  case (Cons item items)
  obtain p m where item: "item = (p, m)" by (cases item)
  obtain r1 st1 where step: "process_partition env output_dir nj ex p m st = (r1, st1)"
    by (cases "process_partition env output_dir nj ex p m st")
  show ?case
  proof (cases r1)
    case None
    with Cons.prems item step
    have "process_partitions env output_dir nj ex items st1 = (r, st')" by simp
    from Cons.IH[OF this Cons.prems(2)] process_partition_jobs[OF step]
    show ?thesis by blast
  next
    case (Some e)
    with Cons.prems item step have "st' = st1" by simp
    with process_partition_jobs[OF step] Cons.prems(2) show ?thesis by blast
  qed
qed

lemma process_partition_reads:
  "process_partition env output_dir nj ex p m st = (r, st') \<Longrightarrow>
   ReadManifestsIfCached parts src pre suf \<in> set (trace st') \<Longrightarrow>
   ReadManifestsIfCached parts src pre suf \<in> set (trace st)"
  unfolding process_partition_def Let_def
  by (auto split: if_splits option.splits sum.splits write_result.splits
           simp: trace_emit)

lemma process_partitions_reads:
  "process_partitions env output_dir nj ex items st = (r, st') \<Longrightarrow>
   ReadManifestsIfCached parts src pre suf \<in> set (trace st') \<Longrightarrow>
   ReadManifestsIfCached parts src pre suf \<in> set (trace st)"
proof (induction items arbitrary: st)
  case Nil
  then show ?case by simp
next
  case (Cons item items)
  obtain p m where item: "item = (p, m)" by (cases item)
  obtain r1 st1 where step: "process_partition env output_dir nj ex p m st = (r1, st1)"
    by (cases "process_partition env output_dir nj ex p m st")
  show ?case
  proof (cases r1)
    case None
    with Cons.prems item step
    have "process_partitions env output_dir nj ex items st1 = (r, st')" by simp
    from Cons.IH[OF this Cons.prems(2)] process_partition_reads[OF step]
    show ?thesis by blast
  next
    case (Some e)
    with Cons.prems item step have "st' = st1" by simp
    with process_partition_reads[OF step] Cons.prems(2) show ?thesis by blast
  qed
qed

lemma failed_run_value:
  "process_partitions env_failing_test ''o'' 4 None
     (example_manifests dataset_parts ''m'') empty_state =
     (Some (LibraryError ''worker died''),
      \<lparr>files = [''o/mucs_cuts_train.jsonl.gz'' \<mapsto>
                 RegularFile [''m/r_train'', ''m/s_train'', ''o/mucs_feats_train'', ''trimmed'']],
       trace =
         [Log ''Processing train'', FromManifests,
          ComputeAndStoreFeatures ''o/mucs_feats_train'' 4 False,
          TrimToSupervisions False None False, ToFile ''o/mucs_cuts_train.jsonl.gz'',
          Log ''Processing test'', FromManifests,
          ComputeAndStoreFeatures ''o/mucs_feats_test'' 4 False]\<rparr>)"
  by (simp add: mucs_eval env_failing_test_def)

lemma missing_model_run_value:
  "compute_fbank_mucs example_env (example_args\<lparr>bpe_model_arg := Some ''missing.model''\<rparr>)
     (Some ''missing.model'') None empty_state =
     (Some (LibraryError ''Not found''),
      \<lparr>files = Map.empty, trace = [Log ''Loading missing.model'', SpLoad ''missing.model'']\<rparr>)"
  by (simp add: mucs_eval)

lemma train_partition_value:
  "process_partition example_env ''o'' 4 None ''train''
     [(''recordings'', ''m/r_train''), (''supervisions'', ''m/s_train'')] empty_state =
     (None,
      \<lparr>files = [''o/mucs_cuts_train.jsonl.gz'' \<mapsto>
                 RegularFile [''m/r_train'', ''m/s_train'', ''o/mucs_feats_train'', ''trimmed'']],
       trace =
         [Log ''Processing train'', FromManifests,
          ComputeAndStoreFeatures ''o/mucs_feats_train'' 4 False,
          TrimToSupervisions False None False, ToFile ''o/mucs_cuts_train.jsonl.gz'']\<rparr>)"
  by (simp add: mucs_eval)

section \<open>The caching pipeline: the claims\<close>

text \<open>
  C5, as stated, at a concrete input. All three artifacts are in the output directory,
  so every partition would be skipped; yet the manifests of all three partitions are
  read before the loop, and since those of \<open>train\<close> are missing the run stops
  at the manifest-count assertion instead of skipping \<open>train\<close>.
\<close>

theorem manifests_read_despite_artifacts:
  "is_file (files complete_state) (path_join ''o'' (cuts_filename ''train'')) \<and>
   is_file (files complete_state) (path_join ''o'' (cuts_filename ''test'')) \<and>
   is_file (files complete_state) (path_join ''o'' (cuts_filename ''dev'')) \<and>
   compute_fbank_mucs env_missing_train example_args None None complete_state =
     (Some (AssertionError (ManifestCount 2 3 [''test'', ''dev''] [''train'', ''test'', ''dev''])),
      complete_state\<lparr>trace :=
        [ReadManifestsIfCached [''train'', ''test'', ''dev''] ''m'' ''mucs'' ''jsonl.gz'']\<rparr>)"
  by (simp add: mucs_eval env_missing_train_def complete_state_def)

text \<open>
  C5, amended. After a run that succeeded, a second run with the same manifests and
  arguments succeeds again, leaves the files as they are and adds to the trace no event
  of work on a partition (no cut set built, no feature computation, no trimming, no
  write): what it adds is the tokenizer block, the manifest read and the skip messages.
  And in any state in which a regular file of whatever content is at a partition's
  artifact path, the loop body for that partition only logs that it skips.
\<close>

theorem cache_skip_and_idempotence:
  assumes "compute_fbank_mucs env args bpe ds st = (None, st1)"
  shows "(\<exists>evs. compute_fbank_mucs env args bpe ds st1 = (None, st1\<lparr>trace := trace st1 @ evs\<rparr>) \<and>
                (\<forall>e \<in> set evs. \<not> is_work e)) \<and>
         (\<forall>od nj ex p m c s.
            files s (path_join od (cuts_filename p)) = Some (RegularFile c) \<longrightarrow>
            process_partition env od nj ex p m s =
              (None, emit (Log (p @ '' already exists - skipping.'')) s))"
proof
  from compute_fbank_mucs_success[OF assms] obtain src od cpus manifests where
    f: "manifestpath args = Some src" "fbankpath args = Some od"
       "cpu_count env = Some cpus" "tokenizer_loads env bpe"
       "read_manifests_if_cached env dataset_parts src prefix suffix = Inr (Some manifests)"
       "length manifests = length dataset_parts"
    by blast
  let ?pre = "loading_events bpe @ [ReadManifestsIfCached dataset_parts src prefix suffix]"
  let ?skips = "map (\<lambda>(p, m). Log (p @ '' already exists - skipping.'')) manifests"
  have "process_partitions env od (num_jobs_of cpus) (get_executor env) manifests
          (st\<lparr>trace := trace st @ ?pre\<rparr>) = (None, st1)"
    using assms compute_fbank_mucs_loop[OF f] by simp
  then have marked: "\<forall>(p, m) \<in> set manifests. is_file (files st1) (path_join od (cuts_filename p))"
    using process_partitions_done by blast
  then have "\<forall>(p, m) \<in> set manifests.
        is_file (files (st1\<lparr>trace := trace st1 @ ?pre\<rparr>)) (path_join od (cuts_filename p))"
    by simp
  from process_partitions_all_skipped[OF this]
  have "compute_fbank_mucs env args bpe ds st1 =
          (None, st1\<lparr>trace := trace st1 @ (?pre @ ?skips)\<rparr>)"
    using compute_fbank_mucs_loop[OF f, of ds st1] by simp
  moreover have "\<forall>e \<in> set (?pre @ ?skips). \<not> is_work e"
    using not_work_skips[of manifests] not_work_loading[of bpe] by auto
  ultimately show "\<exists>evs. compute_fbank_mucs env args bpe ds st1 =
        (None, st1\<lparr>trace := trace st1 @ evs\<rparr>) \<and> (\<forall>e \<in> set evs. \<not> is_work e)"
    by blast
next
  show "\<forall>od nj ex p m c s.
            files s (path_join od (cuts_filename p)) = Some (RegularFile c) \<longrightarrow>
            process_partition env od nj ex p m s =
              (None, emit (Log (p @ '' already exists - skipping.'')) s)"
    by (simp add: process_partition_skip is_file_def)
qed

theorem cache_skip_and_idempotence_witness:
  "compute_fbank_mucs example_env example_args None None empty_state = (None, first_run) \<and>
   (\<exists>evs. compute_fbank_mucs example_env example_args None None first_run =
            (None, first_run\<lparr>trace := trace first_run @ evs\<rparr>) \<and>
          (\<forall>e \<in> set evs. \<not> is_work e))"
proof -
  have h: "compute_fbank_mucs example_env example_args None None empty_state = (None, first_run)"
    unfolding first_run_def by (simp add: first_run_value)
  from cache_skip_and_idempotence[OF h] h show ?thesis by blast
qed

text \<open>
  C6. When the CPU count is \<open>n\<close>, every feature computation a run starts is given
  \<open>min 48 n\<close> jobs if there is no external executor and 80 jobs if there is one,
  and the job count with an executor is strictly greater than the one without,
  whatever \<open>n\<close> is.
\<close>

theorem worker_pool_size:
  assumes "cpu_count env = Some n"
      and "compute_fbank_mucs env args bpe ds st = (r, st')"
      and "ComputeAndStoreFeatures sp j b \<in> set (trace st')"
      and "ComputeAndStoreFeatures sp j b \<notin> set (trace st)"
  shows "j = (if get_executor env = None then min 48 n else 80) \<and>
         b = (get_executor env \<noteq> None) \<and>
         (\<forall>ex. jobs_arg (num_jobs_of n) None < jobs_arg (num_jobs_of n) (Some ex))"
proof -
  have gt: "\<forall>ex. jobs_arg (num_jobs_of n) None < jobs_arg (num_jobs_of n) (Some ex)"
    by (simp add: jobs_arg_def num_jobs_of_def)
  have "j = jobs_arg (num_jobs_of n) (get_executor env) \<and> b = (get_executor env \<noteq> None)"
    using assms
    unfolding compute_fbank_mucs_def Let_def
    by (auto split: option.splits sum.splits if_splits prod.splits
             simp: trace_emit dest!: process_partitions_jobs)
  then show ?thesis using gt
    by (auto simp: jobs_arg_def num_jobs_of_def split: option.splits)
qed

theorem worker_pool_size_witness:
  "cpu_count example_env = Some 4 \<and>
   compute_fbank_mucs example_env example_args None None empty_state = (None, first_run) \<and>
   ComputeAndStoreFeatures ''o/mucs_feats_train'' 4 False \<in> set (trace first_run) \<and>
   ComputeAndStoreFeatures ''o/mucs_feats_train'' 4 False \<notin> set (trace empty_state) \<and>
   (4::nat) = (if get_executor example_env = None then min 48 4 else 80)"
proof -
  have h1: "cpu_count example_env = Some 4" by (simp add: example_env_def)
  have h2: "compute_fbank_mucs example_env example_args None None empty_state = (None, first_run)"
    unfolding first_run_def by (simp add: first_run_value)
  have h3: "ComputeAndStoreFeatures ''o/mucs_feats_train'' 4 False \<in> set (trace first_run)"
    unfolding first_run_def by (simp add: first_run_value)
  have h4: "ComputeAndStoreFeatures ''o/mucs_feats_train'' 4 False \<notin> set (trace empty_state)"
    by (simp add: empty_state_def)
  from worker_pool_size[OF h1 h2 h3 h4] h1 h2 h3 h4 show ?thesis by blast
qed

text \<open>
  C7. A partition whose artifact is not there and whose processing succeeds: the cut set
  built from the manifest's recordings and supervisions goes through feature
  computation, the result is trimmed with \<open>keep_overlapping=False\<close>,
  \<open>min_duration=None\<close> and \<open>keep_all_channels=False\<close>, and what is written
  to \<open><prefix>_cuts_<partition>.<suffix>\<close> in the output directory is the trimmed
  cut set; these are the five events of the step, in this order. After the write a regular file
  is at that path, and from then on the loop body skips the partition.
\<close>

theorem trimmed_cut_set_persisted:
  fixes env :: "('m, 'cs, 'ex, 'c) mucs_env"
  assumes "process_partition env od nj ex p m st = (None, st')"
      and "\<not> is_file (files st) (path_join od (cuts_filename p))"
  shows "(\<exists>recordings supervisions cut_set feats trimmed c.
           map_of m ''recordings'' = Some recordings \<and>
           map_of m ''supervisions'' = Some supervisions \<and>
           from_manifests env recordings supervisions = Inr cut_set \<and>
           compute_and_store_features env cut_set num_mel_bins (storage_path od p)
             (jobs_arg nj ex) ex = Inr feats \<and>
           trim_to_supervisions env feats False None False = Inr trimmed \<and>
           to_file env trimmed (path_join od (cuts_filename p)) = Written c \<and>
           files st' = (files st)(path_join od (cuts_filename p) \<mapsto> RegularFile c) \<and>
           trace st' = trace st @
             [Log (''Processing '' @ p), FromManifests,
              ComputeAndStoreFeatures (storage_path od p) (jobs_arg nj ex) (ex \<noteq> None),
              TrimToSupervisions False None False,
              ToFile (path_join od (cuts_filename p))]) \<and>
         cuts_filename p = ''mucs_cuts_'' @ p @ ''.jsonl.gz'' \<and>
         is_file (files st') (path_join od (cuts_filename p)) \<and>
         (\<forall>(env2 :: ('m, 'cs, 'ex, 'c) mucs_env) nj2 ex2 m2 t.
            process_partition env2 od nj2 ex2 p m2 (st'\<lparr>trace := t\<rparr>) =
              (None, st'\<lparr>trace := t @ [Log (p @ '' already exists - skipping.'')]\<rparr>))"
proof -
  have marked: "is_file (files st') (path_join od (cuts_filename p))"
    using process_partition_done[OF assms(1)] .
  have "\<And>(env2 :: ('m, 'cs, 'ex, 'c) mucs_env) nj2 ex2 m2 t.
          process_partition env2 od nj2 ex2 p m2 (st'\<lparr>trace := t\<rparr>) =
            (None, st'\<lparr>trace := t @ [Log (p @ '' already exists - skipping.'')]\<rparr>)"
    using marked by (simp add: process_partition_skip emit_def)
  moreover have "cuts_filename p = ''mucs_cuts_'' @ p @ ''.jsonl.gz''"
    by (simp add: cuts_filename_def prefix_def suffix_def)
  ultimately show ?thesis
    using process_partition_written[OF assms] marked by blast
qed

theorem trimmed_cut_set_persisted_witness:
  "process_partition example_env ''o'' 4 None ''train''
     [(''recordings'', ''m/r_train''), (''supervisions'', ''m/s_train'')] empty_state =
     (None,
      \<lparr>files = [''o/mucs_cuts_train.jsonl.gz'' \<mapsto>
                 RegularFile [''m/r_train'', ''m/s_train'', ''o/mucs_feats_train'', ''trimmed'']],
       trace =
         [Log ''Processing train'', FromManifests,
          ComputeAndStoreFeatures ''o/mucs_feats_train'' 4 False,
          TrimToSupervisions False None False, ToFile ''o/mucs_cuts_train.jsonl.gz'']\<rparr>) \<and>
   \<not> is_file (files empty_state) (path_join ''o'' (cuts_filename ''train'')) \<and>
   is_file (files (snd (process_partition example_env ''o'' 4 None ''train''
              [(''recordings'', ''m/r_train''), (''supervisions'', ''m/s_train'')] empty_state)))
     (path_join ''o'' (cuts_filename ''train''))"
proof -
  have h2: "\<not> is_file (files empty_state) (path_join ''o'' (cuts_filename ''train''))"
    by (simp add: empty_state_def is_file_def)
  from trimmed_cut_set_persisted[OF train_partition_value h2]
  have "is_file
          (files \<lparr>files = [''o/mucs_cuts_train.jsonl.gz'' \<mapsto>
                 RegularFile [''m/r_train'', ''m/s_train'', ''o/mucs_feats_train'', ''trimmed'']],
             trace =
               [Log ''Processing train'', FromManifests,
                ComputeAndStoreFeatures ''o/mucs_feats_train'' 4 False,
                TrimToSupervisions False None False, ToFile ''o/mucs_cuts_train.jsonl.gz'']\<rparr>)
          (path_join ''o'' (cuts_filename ''train''))"
    by blast
  then show ?thesis
    using train_partition_value h2 by simp
qed

lemma process_partitions_reads_snd:
  "ReadManifestsIfCached parts src pre suf \<in>
     set (trace (snd (process_partitions env output_dir nj ex items st))) \<Longrightarrow>
   ReadManifestsIfCached parts src pre suf \<in> set (trace st)"
  using process_partitions_reads[of env output_dir nj ex items st
          "fst (process_partitions env output_dir nj ex items st)"
          "snd (process_partitions env output_dir nj ex items st)"]
  by simp

text \<open>
  C8. The \<open>--dataset\<close> value reaches the function as the \<open>dataset\<close> parameter
  and sits in the global \<open>args\<close>; neither is read. Two runs that differ only there
  return the same outcome, the same files and the same trace, and whenever a run reads
  manifests it asks for the partitions \<open>train\<close>, \<open>test\<close> and \<open>dev\<close>.
\<close>

theorem dataset_argument_is_inert:
  "compute_fbank_mucs env (args\<lparr>dataset_arg := a\<rparr>) bpe d st =
   compute_fbank_mucs env (args\<lparr>dataset_arg := b\<rparr>) bpe e st \<and>
   (\<forall>parts src pre suf.
      ReadManifestsIfCached parts src pre suf \<in>
        set (trace (snd (compute_fbank_mucs env (args\<lparr>dataset_arg := a\<rparr>) bpe d st))) \<longrightarrow>
      ReadManifestsIfCached parts src pre suf \<in> set (trace st) \<or>
      parts = [''train'', ''test'', ''dev''])"
proof
  show "compute_fbank_mucs env (args\<lparr>dataset_arg := a\<rparr>) bpe d st =
        compute_fbank_mucs env (args\<lparr>dataset_arg := b\<rparr>) bpe e st"
    by (simp add: compute_fbank_mucs_def split: option.splits)
next
  show "\<forall>parts src pre suf.
      ReadManifestsIfCached parts src pre suf \<in>
        set (trace (snd (compute_fbank_mucs env (args\<lparr>dataset_arg := a\<rparr>) bpe d st))) \<longrightarrow>
      ReadManifestsIfCached parts src pre suf \<in> set (trace st) \<or>
      parts = [''train'', ''test'', ''dev'']"
    unfolding compute_fbank_mucs_def Let_def
    by (auto split: option.splits sum.splits if_splits prod.splits
             simp: trace_emit dataset_parts_def dest!: process_partitions_reads_snd)
qed

theorem dataset_argument_is_inert_witness:
  "compute_fbank_mucs example_env (example_args\<lparr>dataset_arg := Some ''train''\<rparr>) None
     (Some ''train'') empty_state =
   compute_fbank_mucs example_env (example_args\<lparr>dataset_arg := None\<rparr>) None None empty_state \<and>
   ReadManifestsIfCached [''train'', ''test'', ''dev''] ''m'' ''mucs'' ''jsonl.gz'' \<in>
     set (trace (snd (compute_fbank_mucs example_env
                        (example_args\<lparr>dataset_arg := Some ''train''\<rparr>) None
                        (Some ''train'') empty_state))) \<and>
   ReadManifestsIfCached [''train'', ''test'', ''dev''] ''m'' ''mucs'' ''jsonl.gz'' \<notin>
     set (trace empty_state)"
proof -
  have same: "compute_fbank_mucs example_env (example_args\<lparr>dataset_arg := None\<rparr>) None None
                empty_state =
              compute_fbank_mucs example_env example_args None None empty_state"
    by (simp add: example_args_def)
  have "ReadManifestsIfCached [''train'', ''test'', ''dev''] ''m'' ''mucs'' ''jsonl.gz'' \<notin>
     set (trace empty_state)"
    by (simp add: empty_state_def)
  then show ?thesis
    using dataset_argument_is_inert[where env = example_env and args = example_args
            and a = "Some ''train''" and b = None and bpe = None
            and d = "Some ''train''" and e = None and st = empty_state] same
    by (simp add: first_run_value)
qed

text \<open>
  C9, as stated, at a concrete input. Without \<open>--bpe-model\<close> the run writes the
  artifact of \<open>train\<close>; with a model path that the tokenizer cannot load the run
  stops at \<open>sp.load\<close> and the artifact is not written.
\<close>

theorem bpe_model_changes_outputs:
  "files (snd (compute_fbank_mucs example_env (example_args\<lparr>bpe_model_arg := None\<rparr>)
                 None None empty_state)) ''o/mucs_cuts_train.jsonl.gz'' \<noteq>
   files (snd (compute_fbank_mucs example_env
                 (example_args\<lparr>bpe_model_arg := Some ''missing.model''\<rparr>)
                 (Some ''missing.model'') None empty_state)) ''o/mucs_cuts_train.jsonl.gz''"
proof -
  have "example_args\<lparr>bpe_model_arg := None\<rparr> = example_args"
    by (simp add: example_args_def)
  then show ?thesis
    by (simp add: first_run_value missing_model_run_value)
qed

text \<open>
  C9, amended. The tokenizer is loaded and never used. For two runs that differ only in
  the \<open>--bpe-model\<close> value, where each value is absent, empty or a model that
  loads, the outcome, the files and the work done on the partitions are the same.
\<close>

theorem bpe_model_inert_when_loadable:
  assumes "tokenizer_loads env b1" and "tokenizer_loads env b2"
  shows "fst (compute_fbank_mucs env (args\<lparr>bpe_model_arg := b1\<rparr>) b1 ds st) =
         fst (compute_fbank_mucs env (args\<lparr>bpe_model_arg := b2\<rparr>) b2 ds st) \<and>
         files (snd (compute_fbank_mucs env (args\<lparr>bpe_model_arg := b1\<rparr>) b1 ds st)) =
         files (snd (compute_fbank_mucs env (args\<lparr>bpe_model_arg := b2\<rparr>) b2 ds st)) \<and>
         filter is_work (trace (snd (compute_fbank_mucs env (args\<lparr>bpe_model_arg := b1\<rparr>) b1 ds st))) =
         filter is_work (trace (snd (compute_fbank_mucs env (args\<lparr>bpe_model_arg := b2\<rparr>) b2 ds st)))"
proof (cases "manifestpath args = None \<or> fbankpath args = None \<or> cpu_count env = None")
  case True
  from compute_fbank_mucs_early[OF this] show ?thesis
    by (simp add: compute_fbank_mucs_args)
next
  case False
  then obtain src od cpus where
    f: "manifestpath args = Some src" "fbankpath args = Some od" "cpu_count env = Some cpus"
    by auto
  obtain r st' where run: "compute_fbank_mucs env args None ds st = (r, st')"
    by (cases "compute_fbank_mucs env args None ds st")
  from compute_fbank_mucs_trace[OF run] obtain evs where
    e: "trace st' = trace st @ evs" and
    i: "\<And>t. compute_fbank_mucs env args None ds (st\<lparr>trace := t\<rparr>) = (r, st'\<lparr>trace := t @ evs\<rparr>)"
    by blast
  have shape: "\<And>b. tokenizer_loads env b \<Longrightarrow>
      compute_fbank_mucs env (args\<lparr>bpe_model_arg := b\<rparr>) b ds st =
        (r, st'\<lparr>trace := (trace st @ loading_events b) @ evs\<rparr>)"
    using compute_fbank_mucs_tokenizer[OF f, of _ ds st ds] i
    by (simp add: compute_fbank_mucs_args)
  have nw: "\<And>b. filter is_work (loading_events b) = []"
    using not_work_loading by (simp add: filter_empty_conv)
  show ?thesis
    using shape[OF assms(1)] shape[OF assms(2)] nw by simp
qed

theorem bpe_model_inert_when_loadable_witness:
  "tokenizer_loads example_env None \<and> tokenizer_loads example_env (Some ''bpe.model'') \<and>
   files (snd (compute_fbank_mucs example_env (example_args\<lparr>bpe_model_arg := None\<rparr>)
                 None None empty_state)) =
   files (snd (compute_fbank_mucs example_env
                 (example_args\<lparr>bpe_model_arg := Some ''bpe.model''\<rparr>)
                 (Some ''bpe.model'') None empty_state))"
proof -
  have h1: "tokenizer_loads example_env None"
    by (simp add: tokenizer_loads_def)
  have h2: "tokenizer_loads example_env (Some ''bpe.model'')"
    by (simp add: tokenizer_loads_def example_env_def)
  from bpe_model_inert_when_loadable[OF h1 h2, of example_args None empty_state] h1 h2
  show ?thesis by blast
qed

text \<open>
  C10. The artifact is written by the last call of the loop body: a step that changes
  the files has gone through cut set construction, feature computation and trimming,
  in this order, before its \<open>to_file\<close>. If the loop stops with an error
  before reaching \<open>to_file\<close>, then the partition it was processing has no regular
  file at its artifact path, and any later pass over the same items from these files
  skips the partitions before it and starts processing it again.
\<close>

theorem artifact_written_last:
  fixes env :: "('m, 'cs, 'ex, 'c) mucs_env"
  assumes "process_partitions env od nj ex items st = (Some e, st1)"
      and "\<forall>q. last (trace st1) \<noteq> ToFile q"
  shows "(\<exists>pre p m post. items = pre @ (p, m) # post \<and>
            \<not> is_file (files st1) (path_join od (cuts_filename p)) \<and>
            (\<exists>tr evs. trace st1 = tr @ Log (''Processing '' @ p) # evs \<and>
                      (\<forall>e \<in> set evs. is_work e)) \<and>
            (\<forall>(env2 :: ('m, 'cs, 'ex, 'c) mucs_env) nj2 ex2 t. \<exists>evs.
               trace (snd (process_partitions env2 od nj2 ex2 items (st1\<lparr>trace := t\<rparr>))) =
                 t @ map (\<lambda>(q, mq). Log (q @ '' already exists - skipping.'')) pre @
                 Log (''Processing '' @ p) # evs)) \<and>
         (\<forall>p m s r s'. process_partition env od nj ex p m s = (r, s') \<and> files s' \<noteq> files s \<longrightarrow>
            (\<exists>sp j b. trace s' = trace s @
               [Log (''Processing '' @ p), FromManifests, ComputeAndStoreFeatures sp j b,
                TrimToSupervisions False None False,
                ToFile (path_join od (cuts_filename p))]))"
proof
  from process_partitions_failed[OF assms] obtain pre p m post where
    f: "items = pre @ (p, m) # post"
       "\<forall>(q, mq) \<in> set pre. is_file (files st1) (path_join od (cuts_filename q))"
       "\<not> is_file (files st1) (path_join od (cuts_filename p))"
       "\<exists>tr evs. trace st1 = tr @ Log (''Processing '' @ p) # evs \<and> (\<forall>e \<in> set evs. is_work e)"
    by blast
  have "\<forall>(env2 :: ('m, 'cs, 'ex, 'c) mucs_env) nj2 ex2 t. \<exists>evs.
          trace (snd (process_partitions env2 od nj2 ex2 items (st1\<lparr>trace := t\<rparr>))) =
            t @ map (\<lambda>(q, mq). Log (q @ '' already exists - skipping.'')) pre @
            Log (''Processing '' @ p) # evs"
  proof (intro allI)
    fix env2 :: "('m, 'cs, 'ex, 'c) mucs_env" and nj2 ex2 t
    have a: "\<forall>(q, mq) \<in> set pre. is_file (files (st1\<lparr>trace := t\<rparr>)) (path_join od (cuts_filename q))"
      using f(2) by simp
    have b: "\<not> is_file (files (st1\<lparr>trace := t\<rparr>)) (path_join od (cuts_filename p))"
      using f(3) by simp
    from process_partitions_rerun[OF a b, of env2 nj2 ex2 m post] f(1)
    show "\<exists>evs. trace (snd (process_partitions env2 od nj2 ex2 items (st1\<lparr>trace := t\<rparr>))) =
            t @ map (\<lambda>(q, mq). Log (q @ '' already exists - skipping.'')) pre @
            Log (''Processing '' @ p) # evs"
      by simp
  qed
  with f(1,3,4) show "\<exists>pre p m post. items = pre @ (p, m) # post \<and>
            \<not> is_file (files st1) (path_join od (cuts_filename p)) \<and>
            (\<exists>tr evs. trace st1 = tr @ Log (''Processing '' @ p) # evs \<and>
                      (\<forall>e \<in> set evs. is_work e)) \<and>
            (\<forall>(env2 :: ('m, 'cs, 'ex, 'c) mucs_env) nj2 ex2 t. \<exists>evs.
               trace (snd (process_partitions env2 od nj2 ex2 items (st1\<lparr>trace := t\<rparr>))) =
                 t @ map (\<lambda>(q, mq). Log (q @ '' already exists - skipping.'')) pre @
                 Log (''Processing '' @ p) # evs)"
    by blast
next
  show "\<forall>p m s r s'. process_partition env od nj ex p m s = (r, s') \<and> files s' \<noteq> files s \<longrightarrow>
            (\<exists>sp j b. trace s' = trace s @
               [Log (''Processing '' @ p), FromManifests, ComputeAndStoreFeatures sp j b,
                TrimToSupervisions False None False,
                ToFile (path_join od (cuts_filename p))])"
    using process_partition_files_changed by blast
qed

theorem artifact_written_last_witness:
  "process_partitions env_failing_test ''o'' 4 None
     (example_manifests dataset_parts ''m'') empty_state =
     (Some (LibraryError ''worker died''), failed_run) \<and>
   (\<forall>q. last (trace failed_run) \<noteq> ToFile q) \<and>
   (\<exists>pre p m post. example_manifests dataset_parts ''m'' = pre @ (p, m) # post \<and>
      \<not> is_file (files failed_run) (path_join ''o'' (cuts_filename p)) \<and>
      (\<exists>tr evs. trace failed_run = tr @ Log (''Processing '' @ p) # evs \<and>
                (\<forall>e \<in> set evs. is_work e)))"
proof -
  have h1: "process_partitions env_failing_test ''o'' 4 None
     (example_manifests dataset_parts ''m'') empty_state =
     (Some (LibraryError ''worker died''), failed_run)"
    unfolding failed_run_def by (simp add: failed_run_value)
  have h2: "\<forall>q. last (trace failed_run) \<noteq> ToFile q"
    unfolding failed_run_def by (simp add: failed_run_value)
  from artifact_written_last[OF h1 h2] h1 h2 show ?thesis by blast
qed

section \<open>The inference script: facts about batching, loading and the encoder stage\<close>

lemma fold_max_ge_init: "a \<le> fold max xs (a::nat)"
proof (induction xs arbitrary: a)
  case Nil
  then show ?case by simp
next
  case (Cons x xs)
  have "a \<le> max x a" by simp
  also have "max x a \<le> fold max xs (max x a)" by (rule Cons.IH)
  finally show ?case by simp
qed

lemma fold_max_ge_elem: "x \<in> set xs \<Longrightarrow> x \<le> fold max xs (a::nat)"
proof (induction xs arbitrary: a)
  case Nil
  then show ?case by simp
next
  case (Cons y ys)
  show ?case
  proof (cases "x = y")
    case True
    have "x \<le> max y a" using True by simp
    also have "max y a \<le> fold max ys (max y a)" by (rule fold_max_ge_init)
    finally show ?thesis by simp
  next
    case False
    with Cons.prems have "x \<in> set ys" by simp
    from Cons.IH[OF this] show ?thesis by simp
  qed
qed

lemma size0_le_max_len: "s \<in> set sequences \<Longrightarrow> size0 s \<le> max_len sequences"
  unfolding max_len_def by (rule fold_max_ge_elem) simp

lemma pad_sequence_ok:
  assumes "sequences \<noteq> []" and "\<forall>s \<in> set sequences. ncols s = ncols (hd sequences)"
  shows "pad_sequence sequences pv =
           Inr (map (\<lambda>s. frames s @ replicate (max_len sequences - size0 s)
                              (replicate (ncols (hd sequences)) pv)) sequences)"
  using assms
  unfolding pad_sequence_def
  by (cases sequences) (auto simp: list_ex_iff)

lemma read_sound_files_loop_events:
  "read_sound_files_loop env fs expected ans tr = (r, tr') \<Longrightarrow>
   \<exists>evs. tr' = tr @ evs \<and> (\<forall>ev \<in> set evs. loading_event ev)"
proof (induction fs arbitrary: ans tr)
  case Nil
  then show ?case by simp
next
  case (Cons f fs)
  show ?case
  proof (cases "\<exists>w ws. torchaudio_load env f = Inr (w # ws, expected)")
    case True
    then obtain w ws where ld: "torchaudio_load env f = Inr (w # ws, expected)" by blast
    with Cons.prems
    have "read_sound_files_loop env fs expected (ans @ [w]) (tr @ [CallTorchaudioLoad f]) = (r, tr')"
      by simp
    from Cons.IH[OF this] obtain evs where
      "tr' = (tr @ [CallTorchaudioLoad f]) @ evs" "\<forall>ev \<in> set evs. loading_event ev" by blast
    then have "tr' = tr @ (CallTorchaudioLoad f # evs) \<and>
               (\<forall>ev \<in> set (CallTorchaudioLoad f # evs). loading_event ev)" by simp
    then show ?thesis by blast
  next
    case False
    with Cons.prems have "tr' = tr @ [CallTorchaudioLoad f]"
      by (auto simp: Let_def split: sum.splits prod.splits if_splits list.splits)
    then have "tr' = tr @ [CallTorchaudioLoad f] \<and>
               (\<forall>ev \<in> set [CallTorchaudioLoad f]. loading_event ev)" by simp
    then show ?thesis by blast
  qed
qed

lemma read_sound_files_loop_ok:
  "\<forall>f \<in> set fs. \<exists>w ws. torchaudio_load env f = Inr (w # ws, expected) \<Longrightarrow>
   read_sound_files_loop env fs expected ans tr =
     (Inr (ans @ map (first_channel env) fs), tr @ map CallTorchaudioLoad fs)"
proof (induction fs arbitrary: ans tr)
  case Nil
  then show ?case by simp
next
  case (Cons f fs)
  from Cons.prems obtain w ws where ld: "torchaudio_load env f = Inr (w # ws, expected)"
    by auto
  have fc: "first_channel env f = w" by (simp add: first_channel_def ld)
  have "\<forall>g \<in> set fs. \<exists>w ws. torchaudio_load env g = Inr (w # ws, expected)"
    using Cons.prems by simp
  from Cons.IH[OF this] ld fc show ?case by simp
qed

lemma read_sound_files_loop_mismatch:
  "f \<in> set fs \<Longrightarrow> torchaudio_load env f = Inr (w, sr) \<Longrightarrow> sr \<noteq> expected \<Longrightarrow>
   \<exists>e tr'. read_sound_files_loop env fs expected ans tr = (Inl e, tr')"
proof (induction fs arbitrary: ans tr)
  case Nil
  then show ?case by simp
next
  case (Cons g fs)
  show ?case
  proof (cases "\<exists>w ws. torchaudio_load env g = Inr (w # ws, expected)")
    case True
    then obtain w' ws where ld: "torchaudio_load env g = Inr (w' # ws, expected)" by blast
    with Cons.prems have "f \<in> set fs" by auto
    from Cons.IH[OF this Cons.prems(2,3)] ld show ?thesis by simp
  next
    case False
    then show ?thesis
      by (auto simp: Let_def split: sum.splits prod.splits if_splits list.splits)
  qed
qed

lemma encode_stage_events:
  "encode_stage env args tr0 = (r, tr) \<Longrightarrow>
   \<exists>evs. tr = tr0 @ evs \<and> (\<forall>ev \<in> set evs. front_event ev)"
proof -
  assume run: "encode_stage env args tr0 = (r, tr)"
  let ?tr3 = "tr0 @ [CallSpLoad (bpe_model args), InfoParams, Info (''device: '' @ device env),
                     Info ''Creating model'', CallLoadModel (checkpoint args),
                     Info ''Constructing Fbank computer'', InfoSoundFiles (sound_files args)]"
  obtain r4 tr4 where rd: "read_sound_files env (sound_files args) (sample_rate get_params) ?tr3 = (r4, tr4)"
    by (cases "read_sound_files env (sound_files args) (sample_rate get_params) ?tr3")
  from read_sound_files_loop_events[OF rd[unfolded read_sound_files_def]] obtain evs where
    e: "tr4 = ?tr3 @ evs" "\<forall>ev \<in> set evs. loading_event ev" by blast
  have fe: "\<forall>ev \<in> set evs. front_event ev"
  proof
    fix ev assume "ev \<in> set evs"
    with e(2) have "loading_event ev" by blast
    then show "front_event ev" by (cases ev) auto
  qed
  have dev: "loading_event (Info (''device: '' @ device env))"
    by (simp add: device_def)
  from run rd e(1) fe dev show ?thesis
    unfolding encode_stage_def Let_def
    by (auto split: option.splits sum.splits prod.splits)
qed

lemma encode_stage_mismatch:
  assumes "f \<in> set (sound_files args)" and "torchaudio_load env f = Inr (w, sr)"
      and "sr \<noteq> sample_rate get_params"
  shows "\<exists>e evs. encode_stage env args tr0 = (Inl e, tr0 @ evs) \<and>
                 (\<forall>ev \<in> set evs. loading_event ev)"
proof -
  let ?tr3 = "tr0 @ [CallSpLoad (bpe_model args), InfoParams, Info (''device: '' @ device env),
                     Info ''Creating model'', CallLoadModel (checkpoint args),
                     Info ''Constructing Fbank computer'', InfoSoundFiles (sound_files args)]"
  from read_sound_files_loop_mismatch[OF assms] obtain e tr4 where
    rd: "read_sound_files env (sound_files args) (sample_rate get_params) ?tr3 = (Inl e, tr4)"
    unfolding read_sound_files_def by blast
  from read_sound_files_loop_events[OF rd[unfolded read_sound_files_def]] obtain evs where
    e: "tr4 = ?tr3 @ evs" "\<forall>ev \<in> set evs. loading_event ev" by blast
  have dev: "loading_event (Info (''device: '' @ device env))"
    by (simp add: device_def)
  show ?thesis
  proof (cases "sp_load_asr env (bpe_model args)")
    case (Some e1)
    then have "encode_stage env args tr0 = (Inl e1, tr0 @ [CallSpLoad (bpe_model args)])"
      by (simp add: encode_stage_def)
    moreover have "\<forall>ev \<in> set [CallSpLoad (bpe_model args)]. loading_event ev" by simp
    ultimately show ?thesis by blast
  next
    case None
    note sp = None
    show ?thesis
    proof (cases "load_model env (checkpoint args)")
      case (Some e2)
      let ?evs = "[CallSpLoad (bpe_model args), InfoParams, Info (''device: '' @ device env),
                   Info ''Creating model'', CallLoadModel (checkpoint args)]"
      from sp Some have "encode_stage env args tr0 = (Inl e2, tr0 @ ?evs)"
        by (simp add: encode_stage_def)
      moreover have "\<forall>ev \<in> set ?evs. loading_event ev" using dev by simp
      ultimately show ?thesis by blast
    next
      case None
      let ?evs = "[CallSpLoad (bpe_model args), InfoParams, Info (''device: '' @ device env),
                   Info ''Creating model'', CallLoadModel (checkpoint args),
                   Info ''Constructing Fbank computer'', InfoSoundFiles (sound_files args)] @ evs"
      from sp None rd e(1) have "encode_stage env args tr0 = (Inl e, tr0 @ ?evs)"
        by (simp add: encode_stage_def)
      moreover have "\<forall>ev \<in> set ?evs. loading_event ev" using dev e(2) by simp
      ultimately show ?thesis by blast
    qed
  qed
qed

lemma main_encode_failed:
  "encode_stage env args tr0 = (Inl e, tr) \<Longrightarrow> main env args tr0 = (Some e, tr)"
  by (simp add: main_def)

lemmas asr_eval =
  main_def encode_stage_def example_asr_env_def example_asr_args_def get_params_def device_def
  read_sound_files_def assemble_batch_def pad_sequence_def max_len_def size0_def
  dispatch_def slice_to_def split_def isspace_def transcript_def block_def Let_def

lemma mismatch_run_value:
  "main example_asr_env (example_asr_args\<lparr>sound_files := [''a.wav'', ''c.wav'', ''b.wav'']\<rparr>) [] =
     (Some (AssertionError (Message ''expected sample rate: 16000. Given: 8000'')),
      [CallSpLoad (Some ''bpe.model''), InfoParams, Info ''device: cpu'',
       Info ''Creating model'', CallLoadModel ''pretrained.pt'',
       Info ''Constructing Fbank computer'',
       InfoSoundFiles [''a.wav'', ''c.wav'', ''b.wav''],
       CallTorchaudioLoad ''a.wav'', CallTorchaudioLoad ''c.wav''])"
  by (simp add: asr_eval str_int_def)

lemma good_files_value:
  "read_sound_files example_asr_env [''a.wav'', ''b.wav''] (sample_rate get_params) [] =
     (Inr [[1, 2, 3], [4]], [CallTorchaudioLoad ''a.wav'', CallTorchaudioLoad ''b.wav''])"
  by (simp add: asr_eval)

lemma dispatch_unsupported:
  "method' args \<noteq> ''greedy_search'' \<Longrightarrow> method' args \<noteq> ''beam_search'' \<Longrightarrow>
   dispatch env args x = (Inl (ValueError (''Unsupported method: '' @ method' args)), [])"
  by (simp add: dispatch_def)

lemma decode_loop_unsupported:
  "method' args \<noteq> ''greedy_search'' \<Longrightarrow> method' args \<noteq> ''beam_search'' \<Longrightarrow>
   decode_loop env args eo eol (i # rest) hyps tr =
     (if length eol \<le> i then (Inl IndexError, tr)
      else (Inl (ValueError (''Unsupported method: '' @ method' args)), tr))"
  by (simp add: dispatch_unsupported)

lemma upt_from_zero: "0 < n \<Longrightarrow> [0..<n] = 0 # [1..<n]"
  by (simp add: upt_conv_Cons)

lemma transcript_no_hyps: "transcript filenames [] = [CHR 0x0A]"
  by (simp add: transcript_def)

lemma encode_stage_value:
  "encode_stage example_asr_env (example_asr_args\<lparr>method' := ''ctc-decoding''\<rparr>) [] =
     (Inr ([[3, 5, 7], [9, - 46, - 46]], [3, 1]),
      [CallSpLoad (Some ''bpe.model''), InfoParams, Info ''device: cpu'',
       Info ''Creating model'', CallLoadModel ''pretrained.pt'',
       Info ''Constructing Fbank computer'',
       InfoSoundFiles [''a.wav'', ''b.wav''], CallTorchaudioLoad ''a.wav'',
       CallTorchaudioLoad ''b.wav'', Info ''Decoding started'', CallFbank, CallEncoder])"
  by (simp add: asr_eval numeral_3_eq_3 numeral_2_eq_2)

lemma decode_loop_ok:
  assumes "method' args = ''greedy_search'' \<or> method' args = ''beam_search''"
      and "\<forall>i \<in> set idx. i < length eol \<and>
             (\<exists>toks text. fst (dispatch env args [slice_to (eol ! i) (eo ! i)]) = Inr toks \<and>
                           sp_decode env toks = Inr text)"
  shows "\<exists>evs. decode_loop env args eo eol idx hyps tr =
                 (Inr (hyps @ map (decoded env args eo eol) idx), tr @ evs) \<and>
               (\<forall>ev \<in> set evs. ev = CallGreedySearch \<or> ev = CallBeamSearch (beam_size args) \<or>
                               ev = CallSpDecode)"
  using assms(2)
proof (induction idx arbitrary: hyps tr)
  case Nil
  then show ?case by simp
next
  case (Cons i rest)
  from Cons.prems obtain toks str where
    i: "i < length eol"
       "fst (dispatch env args [slice_to (eol ! i) (eo ! i)]) = Inr toks"
       "sp_decode env toks = Inr str"
    by auto
  obtain evs1 where d: "dispatch env args [slice_to (eol ! i) (eo ! i)] = (Inr toks, evs1)"
    using i(2) by (cases "dispatch env args [slice_to (eol ! i) (eo ! i)]") simp
  have ev1: "\<forall>ev \<in> set evs1. ev = CallGreedySearch \<or> ev = CallBeamSearch (beam_size args)"
    using d assms(1) by (auto simp: dispatch_def split: if_splits)
  have dec: "decoded env args eo eol i = split str"
    by (simp add: decoded_def i(2,3))
  have "\<forall>j \<in> set rest. j < length eol \<and>
             (\<exists>toks text. fst (dispatch env args [slice_to (eol ! j) (eo ! j)]) = Inr toks \<and>
                           sp_decode env toks = Inr text)"
    using Cons.prems by simp
  from Cons.IH[OF this, of "hyps @ [split str]" "tr @ evs1 @ [CallSpDecode]"]
  obtain evs2 where
    r: "decode_loop env args eo eol rest (hyps @ [split str]) (tr @ evs1 @ [CallSpDecode]) =
          (Inr ((hyps @ [split str]) @ map (decoded env args eo eol) rest),
           (tr @ evs1 @ [CallSpDecode]) @ evs2)"
       "\<forall>ev \<in> set evs2. ev = CallGreedySearch \<or> ev = CallBeamSearch (beam_size args) \<or>
                          ev = CallSpDecode"
    by blast
  have "decode_loop env args eo eol (i # rest) hyps tr =
          (Inr (hyps @ map (decoded env args eo eol) (i # rest)),
           tr @ (evs1 @ [CallSpDecode] @ evs2))"
    using i(1,3) d r(1) dec by simp
  moreover have "\<forall>ev \<in> set (evs1 @ [CallSpDecode] @ evs2).
        ev = CallGreedySearch \<or> ev = CallBeamSearch (beam_size args) \<or> ev = CallSpDecode"
    using ev1 r(2) by auto
  ultimately show ?case by blast
qed

lemma zip_map_upt:
  "zip xs (map f [0..<length xs]) = map (\<lambda>i. (xs ! i, f i)) [0..<length xs]"
  by (rule nth_equalityI) simp_all

lemma read_sound_files_loop_fst:
  "fst (read_sound_files_loop env fs expected ans tr) =
   fst (read_sound_files_loop env fs expected ans [])"
proof (induction fs arbitrary: ans tr)
  case Nil
  then show ?case by simp
next
  case (Cons f fs)
  show ?case
  proof (cases "\<exists>w ws. torchaudio_load env f = Inr (w # ws, expected)")
    case True
    then obtain w ws where ld: "torchaudio_load env f = Inr (w # ws, expected)" by blast
    from Cons.IH[of "ans @ [w]" "tr @ [CallTorchaudioLoad f]"]
         Cons.IH[of "ans @ [w]" "[CallTorchaudioLoad f]"] ld
    show ?thesis by simp
  next
    case False
    then show ?thesis
      by (auto simp: Let_def split: sum.splits prod.splits if_splits list.splits)
  qed
qed

lemma encode_stage_chain:
  assumes "encode_stage env args tr0 = (Inr (eo, eol), tr6)"
  shows "\<exists>waves features batch.
           fst (read_sound_files env (sound_files args) (sample_rate get_params) []) = Inr waves \<and>
           fbank env waves = Inr features \<and>
           assemble_batch features (log_1e_minus_10 env) = Inr (map size0 features, batch) \<and>
           encoder env batch (map size0 features) = Inr (eo, eol)"
proof -
  let ?tr3 = "tr0 @ [CallSpLoad (bpe_model args), InfoParams, Info (''device: '' @ device env),
                     Info ''Creating model'', CallLoadModel (checkpoint args),
                     Info ''Constructing Fbank computer'', InfoSoundFiles (sound_files args)]"
  obtain r4 tr4 where
    rd: "read_sound_files env (sound_files args) (sample_rate get_params) ?tr3 = (r4, tr4)"
    by (cases "read_sound_files env (sound_files args) (sample_rate get_params) ?tr3")
  have "fst (read_sound_files env (sound_files args) (sample_rate get_params) []) =
        fst (read_sound_files env (sound_files args) (sample_rate get_params) ?tr3)"
    unfolding read_sound_files_def by (rule read_sound_files_loop_fst[symmetric])
  with rd have f: "fst (read_sound_files env (sound_files args) (sample_rate get_params) []) = r4"
    by simp
  from assms rd obtain waves features lens batch where
    c: "r4 = Inr waves" "fbank env waves = Inr features"
       "assemble_batch features (log_1e_minus_10 env) = Inr (lens, batch)"
       "encoder env batch lens = Inr (eo, eol)"
    unfolding encode_stage_def Let_def
    by (auto split: option.splits sum.splits prod.splits)
  from c(3) have "lens = map size0 features"
    by (auto simp: assemble_batch_def Let_def split: sum.splits)
  with c f show ?thesis by blast
qed

lemma encode_stage_example:
  "encode_stage example_asr_env example_asr_args [] =
     (Inr ([[3, 5, 7], [9, - 46, - 46]], [3, 1]),
      [CallSpLoad (Some ''bpe.model''), InfoParams, Info ''device: cpu'',
       Info ''Creating model'', CallLoadModel ''pretrained.pt'',
       Info ''Constructing Fbank computer'',
       InfoSoundFiles [''a.wav'', ''b.wav''], CallTorchaudioLoad ''a.wav'',
       CallTorchaudioLoad ''b.wav'', Info ''Decoding started'', CallFbank, CallEncoder])"
  by (simp add: asr_eval numeral_3_eq_3 numeral_2_eq_2)

lemma main_example:
  "main example_asr_env example_asr_args [] =
    (None,
     [CallSpLoad (Some ''bpe.model''), InfoParams, Info ''device: cpu'',
      Info ''Creating model'', CallLoadModel ''pretrained.pt'',
      Info ''Constructing Fbank computer'',
      InfoSoundFiles [''a.wav'', ''b.wav''], CallTorchaudioLoad ''a.wav'',
      CallTorchaudioLoad ''b.wav'', Info ''Decoding started'', CallFbank,
      CallEncoder, CallGreedySearch, CallSpDecode, CallGreedySearch,
      CallSpDecode,
      Info ([CHR 0x0A] @ ''a.wav:'' @ [CHR 0x0A] @ ''t3 t5 t7'' @ [CHR 0x0A, CHR 0x0A] @
            ''b.wav:'' @ [CHR 0x0A] @ ''t9'' @ [CHR 0x0A, CHR 0x0A]),
      Info ''Decoding Done''])"
  by (simp add: asr_eval numeral_3_eq_3 numeral_2_eq_2 upt_rec)

lemma decoded_example:
  "decoded example_asr_env example_asr_args [[3, 5, 7], [9, - 46, - 46]] [3, 1] 0 =
     [''t3'', ''t5'', ''t7''] \<and>
   decoded example_asr_env example_asr_args [[3, 5, 7], [9, - 46, - 46]] [3, 1] (Suc 0) =
     [''t9'']"
  by (simp add: decoded_def asr_eval numeral_3_eq_3)

section \<open>The inference script: the claims\<close>

text \<open>
  C1. For a non-empty list of feature matrices with a common column count, batch
  assembly succeeds; the recorded lengths are the frame counts in input order; the batch
  has one item per matrix, each of the maximal length; the first \<open>length_i\<close> rows
  of item \<open>i\<close> are the frames of matrix \<open>i\<close>, and every row from
  \<open>length_i\<close> on consists of the padding value \<open>math.log(1e-10)\<close> only.
\<close>

theorem padding_invariant:
  assumes "features \<noteq> []"
      and "\<forall>f \<in> set features. ncols f = ncols (hd features)"
  shows "\<exists>batch. assemble_batch features (log_1e_minus_10 env) = Inr (map size0 features, batch) \<and>
           length batch = length features \<and>
           (\<forall>i < length features.
              take (size0 (features ! i)) (batch ! i) = frames (features ! i) \<and>
              length (batch ! i) = max_len features \<and>
              (\<forall>r. size0 (features ! i) \<le> r \<and> r < max_len features \<longrightarrow>
                   batch ! i ! r = replicate (ncols (hd features)) (log_1e_minus_10 env)))"
proof -
  let ?pv = "log_1e_minus_10 env"
  let ?row = "\<lambda>s. frames s @ replicate (max_len features - size0 s)
                              (replicate (ncols (hd features)) ?pv)"
  let ?batch = "map ?row features"
  have a: "assemble_batch features ?pv = Inr (map size0 features, ?batch)"
    unfolding assemble_batch_def Let_def
    by (simp add: pad_sequence_ok[OF assms])
  have b: "\<forall>i < length features.
              take (size0 (features ! i)) (?batch ! i) = frames (features ! i) \<and>
              length (?batch ! i) = max_len features \<and>
              (\<forall>r. size0 (features ! i) \<le> r \<and> r < max_len features \<longrightarrow>
                   ?batch ! i ! r = replicate (ncols (hd features)) ?pv)"
  proof (intro allI impI)
    fix i assume i: "i < length features"
    then have le: "size0 (features ! i) \<le> max_len features"
      by (simp add: size0_le_max_len)
    have row: "?batch ! i = ?row (features ! i)" using i by simp
    have t: "take (size0 (features ! i)) (?batch ! i) = frames (features ! i)"
      unfolding row by (simp add: size0_def)
    have l: "length (?batch ! i) = max_len features"
      unfolding row using le by (simp add: size0_def)
    have p: "\<forall>r. size0 (features ! i) \<le> r \<and> r < max_len features \<longrightarrow>
                   ?batch ! i ! r = replicate (ncols (hd features)) ?pv"
      unfolding row by (auto simp: size0_def nth_append)
    from t l p show "take (size0 (features ! i)) (?batch ! i) = frames (features ! i) \<and>
              length (?batch ! i) = max_len features \<and>
              (\<forall>r. size0 (features ! i) \<le> r \<and> r < max_len features \<longrightarrow>
                   ?batch ! i ! r = replicate (ncols (hd features)) ?pv)"
      by blast
  qed
  from a b show ?thesis by (intro exI[of _ ?batch]) simp
qed

theorem padding_invariant_witness:
  "[Matrix 2 [[1, 2], [3, 4], [5, 6]], Matrix 2 [[7, 8::int]]] \<noteq> [] \<and>
   list_all (\<lambda>f. ncols f = ncols (hd [Matrix 2 [[1, 2], [3, 4], [5, 6]], Matrix 2 [[7, 8::int]]]))
     [Matrix 2 [[1, 2], [3, 4], [5, 6]], Matrix 2 [[7, 8::int]]] \<and>
   assemble_batch [Matrix 2 [[1, 2], [3, 4], [5, 6]], Matrix 2 [[7, 8::int]]]
     (log_1e_minus_10 example_asr_env) =
     Inr ([3, 1], [[[1, 2], [3, 4], [5, 6]], [[7, 8], [- 23, - 23], [- 23, - 23]]])"
proof -
  let ?fs = "[Matrix 2 [[1, 2], [3, 4], [5, 6]], Matrix 2 [[7, 8::int]]]"
  have h1: "?fs \<noteq> []" by simp
  have h2: "\<forall>f \<in> set ?fs. ncols f = ncols (hd ?fs)" by simp
  from padding_invariant[OF h1 h2, of example_asr_env]
  obtain batch where
    "assemble_batch ?fs (log_1e_minus_10 example_asr_env) = Inr (map size0 ?fs, batch)"
    by blast
  moreover have "assemble_batch ?fs (log_1e_minus_10 example_asr_env) =
     Inr ([3, 1], [[[1, 2], [3, 4], [5, 6]], [[7, 8], [- 23, - 23], [- 23, - 23]]])"
    by (simp add: assemble_batch_def pad_sequence_def max_len_def size0_def example_asr_env_def
                  numeral_2_eq_2)
  ultimately show ?thesis using h1 h2 by (simp add: list_all_iff)
qed

text \<open>
  C2. With one of the two search methods, an encoder that returns one hidden-state
  sequence and one length per sound file, and search and detokenizer calls that succeed
  on every slice: the run succeeds and its last but one message is the transcript, made
  of exactly one block per file in the order of the command line, where block \<open>i\<close>
  carries file name \<open>i\<close> and the words decoded from row \<open>i\<close> of the
  encoder output cut to length \<open>i\<close>. The encoder was given the batch of
  the features of the first channels of the files, in that same order.
\<close>

theorem transcripts_in_input_order:
  assumes "method' args = ''greedy_search'' \<or> method' args = ''beam_search''"
      and "encode_stage env args tr0 = (Inr (eo, eol), tr6)"
      and "length eo = length (sound_files args)"
      and "length eo \<le> length eol"
      and "\<forall>i < length eo. \<exists>toks text.
             fst (dispatch env args [slice_to (eol ! i) (eo ! i)]) = Inr toks \<and>
             sp_decode env toks = Inr text"
  shows "(\<exists>evs. main env args tr0 =
            (None, tr6 @ evs @
               [Info (transcript (sound_files args)
                        (map (decoded env args eo eol) [0..<length (sound_files args)])),
                Info ''Decoding Done'']) \<and>
            (\<forall>ev \<in> set evs. ev = CallGreedySearch \<or> ev = CallBeamSearch (beam_size args) \<or>
                            ev = CallSpDecode)) \<and>
         transcript (sound_files args)
           (map (decoded env args eo eol) [0..<length (sound_files args)]) =
           [CHR 0x0A] @
           concat (map (\<lambda>i. sound_files args ! i @ [CHR '':'', CHR 0x0A] @
                            join '' '' (decoded env args eo eol i) @ [CHR 0x0A, CHR 0x0A])
                     [0..<length (sound_files args)]) \<and>
         (\<exists>waves features batch.
            fst (read_sound_files env (sound_files args) (sample_rate get_params) []) = Inr waves \<and>
            fbank env waves = Inr features \<and>
            assemble_batch features (log_1e_minus_10 env) = Inr (map size0 features, batch) \<and>
            encoder env batch (map size0 features) = Inr (eo, eol))"
proof (intro conjI)
  have "\<forall>i \<in> set [0..<length eo]. i < length eol \<and>
          (\<exists>toks text. fst (dispatch env args [slice_to (eol ! i) (eo ! i)]) = Inr toks \<and>
                        sp_decode env toks = Inr text)"
    using assms(4,5) by auto
  from decode_loop_ok[OF assms(1) this, of "[]" tr6] obtain evs where
    d: "decode_loop env args eo eol [0..<length eo] [] tr6 =
          (Inr (map (decoded env args eo eol) [0..<length eo]), tr6 @ evs)"
       "\<forall>ev \<in> set evs. ev = CallGreedySearch \<or> ev = CallBeamSearch (beam_size args) \<or>
                         ev = CallSpDecode"
    by auto
  have "main env args tr0 =
          (None, tr6 @ evs @
             [Info (transcript (sound_files args)
                      (map (decoded env args eo eol) [0..<length (sound_files args)])),
              Info ''Decoding Done''])"
    using assms(2,3) d(1) by (simp add: main_def del: decode_loop.simps)
  with d(2) show "\<exists>evs. main env args tr0 =
            (None, tr6 @ evs @
               [Info (transcript (sound_files args)
                        (map (decoded env args eo eol) [0..<length (sound_files args)])),
                Info ''Decoding Done'']) \<and>
            (\<forall>ev \<in> set evs. ev = CallGreedySearch \<or> ev = CallBeamSearch (beam_size args) \<or>
                            ev = CallSpDecode)"
    by blast
next
  show "transcript (sound_files args)
           (map (decoded env args eo eol) [0..<length (sound_files args)]) =
           [CHR 0x0A] @
           concat (map (\<lambda>i. sound_files args ! i @ [CHR '':'', CHR 0x0A] @
                            join '' '' (decoded env args eo eol i) @ [CHR 0x0A, CHR 0x0A])
                     [0..<length (sound_files args)])"
    unfolding transcript_def zip_map_upt
    by (simp add: block_def comp_def)
next
  show "\<exists>waves features batch.
            fst (read_sound_files env (sound_files args) (sample_rate get_params) []) = Inr waves \<and>
            fbank env waves = Inr features \<and>
            assemble_batch features (log_1e_minus_10 env) = Inr (map size0 features, batch) \<and>
            encoder env batch (map size0 features) = Inr (eo, eol)"
    using encode_stage_chain[OF assms(2)] .
qed

theorem transcripts_in_input_order_witness:
  "(method' example_asr_args = ''greedy_search'' \<or> method' example_asr_args = ''beam_search'') \<and>
   length [[3, 5, 7], [9, - 46, - 46 :: int]] = length (sound_files example_asr_args) \<and>
   length [[3, 5, 7], [9, - 46, - 46 :: int]] \<le> length [3, 1 :: int] \<and>
   encode_stage example_asr_env example_asr_args [] =
     (Inr ([[3, 5, 7], [9, - 46, - 46]], [3, 1]),
      [CallSpLoad (Some ''bpe.model''), InfoParams, Info ''device: cpu'',
       Info ''Creating model'', CallLoadModel ''pretrained.pt'',
       Info ''Constructing Fbank computer'',
       InfoSoundFiles [''a.wav'', ''b.wav''], CallTorchaudioLoad ''a.wav'',
       CallTorchaudioLoad ''b.wav'', Info ''Decoding started'', CallFbank, CallEncoder]) \<and>
   fst (dispatch example_asr_env example_asr_args
          [slice_to ([3, 1] ! 0) ([[3, 5, 7], [9, - 46, - 46]] ! 0)]) = Inr [3, 5, 7] \<and>
   sp_decode example_asr_env [3, 5, 7] = Inr '' t3 t5 t7'' \<and>
   fst (dispatch example_asr_env example_asr_args
          [slice_to ([3, 1] ! 1) ([[3, 5, 7], [9, - 46, - 46]] ! 1)]) = Inr [9] \<and>
   sp_decode example_asr_env [9] = Inr '' t9'' \<and>
   transcript (sound_files example_asr_args)
     (map (decoded example_asr_env example_asr_args [[3, 5, 7], [9, - 46, - 46]] [3, 1])
        [0..<length (sound_files example_asr_args)]) =
     [CHR 0x0A] @ ''a.wav:'' @ [CHR 0x0A] @ ''t3 t5 t7'' @ [CHR 0x0A, CHR 0x0A] @
     ''b.wav:'' @ [CHR 0x0A] @ ''t9'' @ [CHR 0x0A, CHR 0x0A]"
proof -
  let ?eo = "[[3, 5, 7], [9, - 46, - 46 :: int]]"
  let ?eol = "[3, 1 :: int]"
  have h1: "method' example_asr_args = ''greedy_search'' \<or>
            method' example_asr_args = ''beam_search''"
    by (simp add: example_asr_args_def)
  have h3: "length ?eo = length (sound_files example_asr_args)"
    by (simp add: example_asr_args_def)
  have h4: "length ?eo \<le> length ?eol" by simp
  have h5: "\<forall>i < length ?eo. \<exists>toks text.
      fst (dispatch example_asr_env example_asr_args [slice_to (?eol ! i) (?eo ! i)]) = Inr toks \<and>
      sp_decode example_asr_env toks = Inr text"
    by (simp add: less_Suc_eq dispatch_def example_asr_env_def example_asr_args_def)
  have files: "sound_files example_asr_args = [''a.wav'', ''b.wav'']"
    by (simp add: example_asr_args_def)
  have two: "[0..<length (sound_files example_asr_args)] = [0, Suc 0]"
    by (simp add: files upt_rec)
  from transcripts_in_input_order[OF h1 encode_stage_example h3 h4 h5]
  have "transcript (sound_files example_asr_args)
     (map (decoded example_asr_env example_asr_args ?eo ?eol)
        [0..<length (sound_files example_asr_args)]) =
     [CHR 0x0A] @
     concat (map (\<lambda>i. sound_files example_asr_args ! i @ [CHR '':'', CHR 0x0A] @
                      join '' '' (decoded example_asr_env example_asr_args ?eo ?eol i) @
                      [CHR 0x0A, CHR 0x0A])
               [0..<length (sound_files example_asr_args)])"
    by blast
  then have "transcript (sound_files example_asr_args)
     (map (decoded example_asr_env example_asr_args ?eo ?eol)
        [0..<length (sound_files example_asr_args)]) =
     [CHR 0x0A] @ ''a.wav:'' @ [CHR 0x0A] @ ''t3 t5 t7'' @ [CHR 0x0A, CHR 0x0A] @
     ''b.wav:'' @ [CHR 0x0A] @ ''t9'' @ [CHR 0x0A, CHR 0x0A]"
    unfolding two by (simp add: decoded_example files)
  moreover have "fst (dispatch example_asr_env example_asr_args
          [slice_to (?eol ! 0) (?eo ! 0)]) = Inr [3, 5, 7] \<and>
      sp_decode example_asr_env [3, 5, 7] = Inr '' t3 t5 t7'' \<and>
      fst (dispatch example_asr_env example_asr_args
          [slice_to (?eol ! 1) (?eo ! 1)]) = Inr [9] \<and>
      sp_decode example_asr_env [9] = Inr '' t9''"
    by (simp add: dispatch_def example_asr_env_def example_asr_args_def slice_to_def
                  numeral_3_eq_3)
  ultimately show ?thesis using h1 h3 h4 encode_stage_example by blast
qed

text \<open>
  C3. With a method string other than \<open>greedy_search\<close> and
  \<open>beam_search\<close>, dispatch returns the \<open>ValueError\<close> naming the
  method and calls no search function. A run that reaches decoding with at least one
  utterance stops there with that error, its trace ending at the encoder call: no
  search, no detokenizing, no transcript. And whatever happens before, no run with such a
  method emits an event other than those of the stages up to the encoder, the empty
  transcript and the final message.
\<close>

theorem unsupported_method_aborts:
  assumes "method' args \<noteq> ''greedy_search''" and "method' args \<noteq> ''beam_search''"
  shows "(\<forall>x. dispatch env args x =
              (Inl (ValueError (''Unsupported method: '' @ method' args)), [])) \<and>
         (\<forall>eo eol tr6. encode_stage env args tr0 = (Inr (eo, eol), tr6) \<and> eo \<noteq> [] \<and> eol \<noteq> [] \<longrightarrow>
            main env args tr0 =
              (Some (ValueError (''Unsupported method: '' @ method' args)), tr6)) \<and>
         (\<exists>evs. snd (main env args tr0) = tr0 @ evs \<and>
            (\<forall>ev \<in> set evs. front_event ev \<or> ev = Info [CHR 0x0A] \<or> ev = Info ''Decoding Done''))"
proof (intro conjI allI impI)
  fix x show "dispatch env args x =
              (Inl (ValueError (''Unsupported method: '' @ method' args)), [])"
    using assms by (rule dispatch_unsupported)
next
  fix eo eol tr6
  assume a: "encode_stage env args tr0 = (Inr (eo, eol), tr6) \<and> eo \<noteq> [] \<and> eol \<noteq> []"
  then have "[0..<length eo] = 0 # [1..<length eo]"
    by (simp add: upt_from_zero)
  with a show "main env args tr0 =
              (Some (ValueError (''Unsupported method: '' @ method' args)), tr6)"
    using assms by (simp add: main_def decode_loop_unsupported dispatch_unsupported del: decode_loop.simps)
next
  obtain r tr where enc: "encode_stage env args tr0 = (r, tr)"
    by (cases "encode_stage env args tr0")
  from encode_stage_events[OF enc] obtain evs where
    e: "tr = tr0 @ evs" "\<forall>ev \<in> set evs. front_event ev" by blast
  show "\<exists>evs. snd (main env args tr0) = tr0 @ evs \<and>
            (\<forall>ev \<in> set evs. front_event ev \<or> ev = Info [CHR 0x0A] \<or> ev = Info ''Decoding Done'')"
  proof (cases r)
    case (Inl err)
    with enc have "snd (main env args tr0) = tr0 @ evs"
      using e(1) by (simp add: main_def)
    with e(2) show ?thesis by blast
  next
    case (Inr out)
    obtain eo eol where out: "out = (eo, eol)" by (cases out)
    show ?thesis
    proof (cases eo)
      case Nil
      with enc Inr out e(1)
      have "snd (main env args tr0) = tr0 @ (evs @ [Info [CHR 0x0A], Info ''Decoding Done''])"
        by (simp add: main_def transcript_no_hyps)
      moreover have "\<forall>ev \<in> set (evs @ [Info [CHR 0x0A], Info ''Decoding Done'']).
                       front_event ev \<or> ev = Info [CHR 0x0A] \<or> ev = Info ''Decoding Done''"
        using e(2) by auto
      ultimately show ?thesis by blast
    next
      case (Cons h t)
      then have "0 < length eo" by simp
      then have "[0..<length eo] = 0 # [1..<length eo]"
        by (rule upt_from_zero)
      with enc Inr out e(1) have "snd (main env args tr0) = tr0 @ evs"
        using assms by (simp add: main_def decode_loop_unsupported dispatch_unsupported del: decode_loop.simps)
      with e(2) show ?thesis by blast
    qed
  qed
qed

theorem unsupported_method_aborts_witness:
  "method' (example_asr_args\<lparr>method' := ''ctc-decoding''\<rparr>) \<noteq> ''greedy_search'' \<and>
   method' (example_asr_args\<lparr>method' := ''ctc-decoding''\<rparr>) \<noteq> ''beam_search'' \<and>
   main example_asr_env (example_asr_args\<lparr>method' := ''ctc-decoding''\<rparr>) [] =
     (Some (ValueError ''Unsupported method: ctc-decoding''),
      [CallSpLoad (Some ''bpe.model''), InfoParams, Info ''device: cpu'',
       Info ''Creating model'', CallLoadModel ''pretrained.pt'',
       Info ''Constructing Fbank computer'',
       InfoSoundFiles [''a.wav'', ''b.wav''], CallTorchaudioLoad ''a.wav'',
       CallTorchaudioLoad ''b.wav'', Info ''Decoding started'', CallFbank, CallEncoder])"
proof -
  let ?args = "example_asr_args\<lparr>method' := ''ctc-decoding''\<rparr>"
  have h1: "method' ?args \<noteq> ''greedy_search''" by simp
  have h2: "method' ?args \<noteq> ''beam_search''" by simp
  from unsupported_method_aborts[OF h1 h2, of example_asr_env "[]"]
  have "\<forall>eo eol tr6. encode_stage example_asr_env ?args [] = (Inr (eo, eol), tr6) \<and>
           eo \<noteq> [] \<and> eol \<noteq> [] \<longrightarrow>
         main example_asr_env ?args [] =
           (Some (ValueError (''Unsupported method: '' @ method' ?args)), tr6)"
    by blast
  with encode_stage_value h1 h2 show ?thesis by simp
qed

text \<open>
  C4. The expected rate is the 16000 of \<open>get_params\<close>. If some file of the
  command line loads with another rate, \<open>read_sound_files\<close> returns an error
  and the run stops having emitted loading events only (no feature extraction, no
  encoder call, no decoding, no transcript). If every file loads with at least one
  channel at 16000 Hz, \<open>read_sound_files\<close> returns the first channel of each
  file, in input order, after one load per file.
\<close>

theorem sample_rate_check:
  "((\<exists>f \<in> set (sound_files args). \<exists>w sr. torchaudio_load env f = Inr (w, sr) \<and> sr \<noteq> 16000) \<longrightarrow>
      (\<exists>e tr'. read_sound_files env (sound_files args) (sample_rate get_params) tr = (Inl e, tr')) \<and>
      (\<exists>e evs. main env args tr0 = (Some e, tr0 @ evs) \<and> (\<forall>ev \<in> set evs. loading_event ev))) \<and>
   ((\<forall>f \<in> set filenames. \<exists>w ws. torchaudio_load env f = Inr (w # ws, 16000)) \<longrightarrow>
      read_sound_files env filenames (sample_rate get_params) tr =
        (Inr (map (first_channel env) filenames), tr @ map CallTorchaudioLoad filenames))"
proof (intro conjI impI)
  assume "\<exists>f \<in> set (sound_files args). \<exists>w sr. torchaudio_load env f = Inr (w, sr) \<and> sr \<noteq> 16000"
  then obtain f w sr where
    f: "f \<in> set (sound_files args)" "torchaudio_load env f = Inr (w, sr)"
       "sr \<noteq> sample_rate get_params"
    by (auto simp: get_params_def)
  from read_sound_files_loop_mismatch[OF f]
  show "\<exists>e tr'. read_sound_files env (sound_files args) (sample_rate get_params) tr = (Inl e, tr')"
    unfolding read_sound_files_def by blast
  from encode_stage_mismatch[OF f] main_encode_failed
  show "\<exists>e evs. main env args tr0 = (Some e, tr0 @ evs) \<and> (\<forall>ev \<in> set evs. loading_event ev)"
    by blast
next
  assume "\<forall>f \<in> set filenames. \<exists>w ws. torchaudio_load env f = Inr (w # ws, 16000)"
  then have "\<forall>f \<in> set filenames. \<exists>w ws. torchaudio_load env f = Inr (w # ws, sample_rate get_params)"
    by (simp add: get_params_def)
  from read_sound_files_loop_ok[OF this]
  show "read_sound_files env filenames (sample_rate get_params) tr =
        (Inr (map (first_channel env) filenames), tr @ map CallTorchaudioLoad filenames)"
    by (simp add: read_sound_files_def)
qed

theorem sample_rate_check_witness:
  "(\<exists>f \<in> set (sound_files (example_asr_args\<lparr>sound_files := [''a.wav'', ''c.wav'', ''b.wav'']\<rparr>)).
      \<exists>w sr. torchaudio_load example_asr_env f = Inr (w, sr) \<and> sr \<noteq> 16000) \<and>
   (\<exists>e evs. main example_asr_env
               (example_asr_args\<lparr>sound_files := [''a.wav'', ''c.wav'', ''b.wav'']\<rparr>) [] =
               (Some e, [] @ evs) \<and> (\<forall>ev \<in> set evs. loading_event ev)) \<and>
   list_all (\<lambda>f. \<exists>w ws. torchaudio_load example_asr_env f = Inr (w # ws, 16000))
     [''a.wav'', ''b.wav''] \<and>
   read_sound_files example_asr_env [''a.wav'', ''b.wav''] (sample_rate get_params) [] =
     (Inr (map (first_channel example_asr_env) [''a.wav'', ''b.wav'']),
      [] @ map CallTorchaudioLoad [''a.wav'', ''b.wav''])"
proof -
  let ?args = "example_asr_args\<lparr>sound_files := [''a.wav'', ''c.wav'', ''b.wav'']\<rparr>"
  have h1: "\<exists>f \<in> set (sound_files ?args).
      \<exists>w sr. torchaudio_load example_asr_env f = Inr (w, sr) \<and> sr \<noteq> 16000"
    by (simp add: example_asr_env_def)
  have h2: "\<forall>f \<in> set [''a.wav'', ''b.wav'']. \<exists>w ws.
      torchaudio_load example_asr_env f = Inr (w # ws, 16000)"
    by (simp add: example_asr_env_def)
  from sample_rate_check[of ?args example_asr_env "[]" "[]" "[''a.wav'', ''b.wav'']"] h1 h2
  show ?thesis unfolding list_all_iff by blast
qed

end
